theory Spec2Isabelle
  imports Complex_Main "HOL-Library.Sublist"
begin

section \<open>Persisted rows (shared/schema.ts)\<close>

text \<open>
  Each table of \<^verbatim>\<open>shared/schema.ts\<close> is a list of rows in insertion order. A
  \<^verbatim>\<open>serial\<close> primary key is drawn from a per-table sequence kept in the database
  state; a nullable column is an \<open>option\<close>; a timestamp is a number of milliseconds.
  The schema declares no foreign-key constraint, so no statement cascades to another
  table. The arrangement row keeps the columns the modelled handlers read or write
  (the denormalised summary columns are never touched by them).
\<close>

type_synonym timestamp = nat

record user =
  user_id :: nat
  user_email :: string
  user_password :: string
  user_name :: string
  user_funeralHome :: "string option"
  user_role :: string
  user_createdAt :: timestamp
  user_updatedAt :: timestamp
  user_billingPeriodStart :: timestamp

record transcript =
  transcript_id :: nat
  transcript_userId :: nat
  transcript_filename :: string
  transcript_content :: string
  transcript_fileSize :: nat
  transcript_uploadDate :: timestamp
  transcript_status :: string

record arrangement =
  arrangement_id :: nat
  arrangement_transcriptId :: nat
  arrangement_userId :: nat
  arrangement_approvalStatus :: string
  arrangement_approvedAt :: "timestamp option"
  arrangement_extractedData :: "string option"

record document =
  document_id :: nat
  document_arrangementId :: nat
  document_type :: string
  document_title :: string
  document_content :: "string option"
  document_plainTextContent :: "string option"
  document_status :: string
  document_version :: nat
  document_createdAt :: timestamp
  document_updatedAt :: timestamp

record funeralTask =
  task_id :: nat
  task_arrangementId :: nat
  task_type :: string
  task_title :: string
  task_description :: "string option"
  task_priority :: string
  task_dueDate :: "timestamp option"
  task_completed :: bool
  task_createdAt :: timestamp

record passwordReset =
  reset_id :: nat
  reset_email :: string
  reset_token :: string
  reset_expiresAt :: timestamp
  reset_createdAt :: timestamp

record userUsageMetric =
  metric_id :: nat
  metric_userId :: nat
  metric_metricType :: string
  metric_metricValue :: nat
  metric_billingPeriodStart :: timestamp
  metric_createdAt :: timestamp

record userBillingPeriod =
  period_id :: nat
  period_userId :: nat
  period_periodStart :: timestamp
  period_periodEnd :: "timestamp option"
  period_role :: string
  period_transcriptsProcessed :: nat
  period_documentsGenerated :: nat
  period_isActive :: bool
  period_createdAt :: timestamp

record db =
  users :: "user list"
  transcripts :: "transcript list"
  arrangements :: "arrangement list"
  documents :: "document list"
  funeralTasks :: "funeralTask list"
  passwordResets :: "passwordReset list"
  userUsageMetrics :: "userUsageMetric list"
  userBillingPeriods :: "userBillingPeriod list"
  documents_seq :: nat
  funeralTasks_seq :: nat
  passwordResets_seq :: nat
  userUsageMetrics_seq :: nat
  userBillingPeriods_seq :: nat

section \<open>HTTP responses\<close>

text \<open>
  The payload of the JWT that \<^verbatim>\<open>authenticateToken\<close> stores in \<^verbatim>\<open>req.user\<close>;
  a handler below is what runs once that middleware has called \<^verbatim>\<open>next()\<close>.
\<close>

record auth_user =
  auth_userId :: nat
  auth_email :: string
  auth_role :: string

record safeUser =
  safe_id :: nat
  safe_email :: string
  safe_name :: string
  safe_funeralHome :: "string option"
  safe_role :: string
  safe_createdAt :: timestamp
  safe_updatedAt :: timestamp

record failedDocument =
  failed_type :: string
  failed_error :: string

record approveBody =
  approve_message :: string
  approve_documents :: "document list"
  approve_failedDocuments :: "failedDocument list option"
  approve_arrangement :: "arrangement option"

datatype body =
    Message string
  | Attachment string string
  | SafeUserBody safeUser
  | RoleResetBody string user
  | ApproveBody approveBody
  | ReconcileBody string nat nat

record response =
  status :: nat
  body :: body

definition json :: "body \<Rightarrow> response" where
  "json b = \<lparr>status = 200, body = b\<rparr>"

definition status_json :: "nat \<Rightarrow> body \<Rightarrow> response" where
  "status_json c b = \<lparr>status = c, body = b\<rparr>"

section \<open>DatabaseStorage (server/storage.ts)\<close>


definition getUserByEmail :: "db \<Rightarrow> string \<Rightarrow> user option" where
  "getUserByEmail st email = find (\<lambda>u. user_email u = email) (users st)"

definition getTranscriptById :: "db \<Rightarrow> nat \<Rightarrow> nat \<Rightarrow> transcript option" where
  "getTranscriptById st i uid =
     find (\<lambda>t. transcript_id t = i \<and> transcript_userId t = uid) (transcripts st)"


definition getDocumentById :: "db \<Rightarrow> nat \<Rightarrow> document option" where
  "getDocumentById st i = find (\<lambda>d. document_id d = i) (documents st)"

definition deleteDocument :: "db \<Rightarrow> nat \<Rightarrow> db" where
  "deleteDocument st i = st\<lparr>documents := filter (\<lambda>d. document_id d \<noteq> i) (documents st)\<rparr>"

definition createPasswordReset :: "timestamp \<Rightarrow> db \<Rightarrow> string \<Rightarrow> string \<Rightarrow> timestamp \<Rightarrow> db" where
  "createPasswordReset now st email token expiresAt =
     st\<lparr>passwordResets := passwordResets st @
            [\<lparr>reset_id = passwordResets_seq st, reset_email = email, reset_token = token,
              reset_expiresAt = expiresAt, reset_createdAt = now\<rparr>],
        passwordResets_seq := Suc (passwordResets_seq st)\<rparr>"

section \<open>Document routes (server/routes.ts)\<close>

text \<open>
  \<^verbatim>\<open>DELETE /api/documents/:id\<close>: the handler deletes by id and answers 200; it
  never reads \<^verbatim>\<open>req.user\<close>.
\<close>

definition delete_document_route :: "db \<Rightarrow> auth_user \<Rightarrow> nat \<Rightarrow> db \<times> response" where
  "delete_document_route st req_user documentId =
     (deleteDocument st documentId, json (Message ''Document deleted successfully''))"

text \<open>
  \<^verbatim>\<open>GET /api/documents/:id/download\<close>. \<^verbatim>\<open>Buffer.from(s, 'base64')\<close> is Node's
  decoder, taken as the parameter \<open>base64\<close>; the attachment carries the file name of
  the \<^verbatim>\<open>Content-Disposition\<close> header and the decoded bytes.
\<close>

definition download_document_route ::
  "(string \<Rightarrow> string) \<Rightarrow> db \<Rightarrow> auth_user \<Rightarrow> nat \<Rightarrow> response" where
  "download_document_route base64 st req_user documentId =
     (case getDocumentById st documentId of
        None \<Rightarrow> status_json 404 (Message ''Document not found'')
      | Some document \<Rightarrow>
          json (Attachment (document_title document @ ''.pdf'')
                  (base64 (case document_content document of None \<Rightarrow> [] | Some c \<Rightarrow> c))))"

section \<open>Password reset request (server/routes.ts)\<close>

text \<open>
  \<^verbatim>\<open>POST /api/auth/forgot-password\<close>. The body's \<^verbatim>\<open>email\<close> is absent or a
  string, and \<^verbatim>\<open>!email\<close> holds for the absent and for the empty one. The random
  token, the clock and the outcome of \<^verbatim>\<open>sendPasswordResetEmail\<close> (which catches
  every mail error and returns a boolean) are parameters.
\<close>

definition forgot_password ::
  "string \<Rightarrow> timestamp \<Rightarrow> bool \<Rightarrow> db \<Rightarrow> string option \<Rightarrow> db \<times> response" where
  "forgot_password resetToken now emailSent st email_field =
     (case email_field of
        None \<Rightarrow> (st, status_json 400 (Message ''Email is required''))
      | Some email \<Rightarrow>
          if email = [] then (st, status_json 400 (Message ''Email is required''))
          else
            let st' = (case getUserByEmail st email of
                         None \<Rightarrow> st
                       | Some user \<Rightarrow>
                           createPasswordReset now st (user_email user) resetToken
                             (now + 60 * 60 * 1000))
            in (st', json (Message
                 ''If an account with that email exists, we've sent a password reset link.'')))"

section \<open>JavaScript values\<close>

text \<open>
  \<^verbatim>\<open>arrangementData\<close> is declared \<^verbatim>\<open>any\<close>; the routes pass what
  \<^verbatim>\<open>JSON.parse\<close> returned, or the stored text itself. A value is therefore one of
  the JSON shapes or \<^verbatim>\<open>undefined\<close>. A number is kept as its \<^verbatim>\<open>String(n)\<close>
  rendering (only string conversion and truthiness are applied to it; \<^verbatim>\<open>0\<close> and
  \<^verbatim>\<open>-0\<close> both render as \<^verbatim>\<open>0\<close>). An object is the list of its own
  properties, each key once. A string is a list of code units below 256.
\<close>

datatype js_error =
    TypeError string
  | SyntaxError string
  | ReferenceError string
  | Error string

fun message :: "js_error \<Rightarrow> string" where
  "message (TypeError m) = m"
| "message (SyntaxError m) = m"
| "message (ReferenceError m) = m"
| "message (Error m) = m"

datatype jsval =
    JUndefined
  | JNull
  | JBool bool
  | JNum string
  | JStr string
  | JArr "jsval list"
  | JObj "(string \<times> jsval) list"

definition and_then :: "'e + 'a \<Rightarrow> ('a \<Rightarrow> 'e + 'b) \<Rightarrow> 'e + 'b" where
  "and_then r f = (case r of Inl e \<Rightarrow> Inl e | Inr x \<Rightarrow> f x)"

definition nullish :: "jsval \<Rightarrow> bool" where
  "nullish v = (v = JUndefined \<or> v = JNull)"

fun truthy :: "jsval \<Rightarrow> bool" where
  "truthy JUndefined = False"
| "truthy JNull = False"
| "truthy (JBool b) = b"
| "truthy (JNum s) = (s \<noteq> ''0'' \<and> s \<noteq> ''NaN'')"
| "truthy (JStr s) = (s \<noteq> [])"
| "truthy (JArr xs) = True"
| "truthy (JObj kvs) = True"

text \<open>\<^verbatim>\<open>a || b\<close>.\<close>

definition or_else :: "jsval \<Rightarrow> jsval \<Rightarrow> jsval" where
  "or_else a b = (if truthy a then a else b)"

text \<open>
  \<^verbatim>\<open>v.k\<close> for the keys this code reads (\<^verbatim>\<open>arrangement\<close>, \<^verbatim>\<open>first\<close>,
  \<^verbatim>\<open>service_date\<close>, ...), none of which a built-in prototype defines: reading a
  property of \<^verbatim>\<open>undefined\<close> or \<^verbatim>\<open>null\<close> throws a TypeError, an object
  yields its own property, and every other value yields \<^verbatim>\<open>undefined\<close>.
\<close>

fun get_prop :: "jsval \<Rightarrow> string \<Rightarrow> js_error + jsval" where
  "get_prop JUndefined k =
     Inl (TypeError (''Cannot read properties of undefined (reading '' @ [CHR 0x27] @ k
            @ [CHR 0x27] @ '')''))"
| "get_prop JNull k =
     Inl (TypeError (''Cannot read properties of null (reading '' @ [CHR 0x27] @ k
            @ [CHR 0x27] @ '')''))"
| "get_prop (JObj kvs) k = Inr (case map_of kvs k of None \<Rightarrow> JUndefined | Some v \<Rightarrow> v)"
| "get_prop (JBool b) k = Inr JUndefined"
| "get_prop (JNum n) k = Inr JUndefined"
| "get_prop (JStr s) k = Inr JUndefined"
| "get_prop (JArr xs) k = Inr JUndefined"

text \<open>\<^verbatim>\<open>v?.k\<close>.\<close>

definition opt_prop :: "jsval \<Rightarrow> string \<Rightarrow> js_error + jsval" where
  "opt_prop v k = (if nullish v then Inr JUndefined else get_prop v k)"

text \<open>
  String conversion, as a template literal and \<^verbatim>\<open>Array.prototype.join\<close> apply it.
  An object converts through \<^verbatim>\<open>toString\<close>, then \<^verbatim>\<open>valueOf\<close>: a parsed object
  inherits both from \<^verbatim>\<open>Object.prototype\<close> and renders as
  \<^verbatim>\<open>[object Object]\<close>, unless it has an own property \<^verbatim>\<open>toString\<close>, which is
  a JSON value and not callable; then no method returns a primitive and the conversion
  throws a TypeError. An array joins its elements with commas, \<^verbatim>\<open>null\<close> and
  \<^verbatim>\<open>undefined\<close> rendering empty.
\<close>

fun join :: "string \<Rightarrow> string list \<Rightarrow> string" where
  "join sep [] = []"
| "join sep [x] = x"
| "join sep (x # y # ys) = x @ sep @ join sep (y # ys)"

fun coercible :: "jsval \<Rightarrow> bool" where
  "coercible (JObj kvs) = (map_of kvs ''toString'' = None)"
| "coercible (JArr xs) = (\<forall>x \<in> set xs. x = JUndefined \<or> x = JNull \<or> coercible x)"
| "coercible JUndefined = True"
| "coercible JNull = True"
| "coercible (JBool b) = True"
| "coercible (JNum n) = True"
| "coercible (JStr s) = True"

fun render :: "jsval \<Rightarrow> string" where
  "render JUndefined = ''undefined''"
| "render JNull = ''null''"
| "render (JBool b) = (if b then ''true'' else ''false'')"
| "render (JNum n) = n"
| "render (JStr s) = s"
| "render (JArr xs) =
     join '','' (map (\<lambda>x. if x = JUndefined \<or> x = JNull then [] else render x) xs)"
| "render (JObj kvs) = ''[object Object]''"

definition to_string :: "jsval \<Rightarrow> js_error + string" where
  "to_string v =
     (if coercible v then Inr (render v)
      else Inl (TypeError ''Cannot convert object to primitive value''))"

fun to_strings :: "jsval list \<Rightarrow> js_error + string list" where
  "to_strings [] = Inr []"
| "to_strings (v # vs) =
     and_then (to_string v) (\<lambda>s. and_then (to_strings vs) (\<lambda>ss. Inr (s # ss)))"

section \<open>Whitespace\<close>

text \<open>
  The characters that the white-space class of a regular expression and
  \<^verbatim>\<open>trim()\<close> treat as white space, among code units below 256: tab, line feed, vertical tab, form feed, carriage return, space and
  the no-break space.
\<close>

definition is_space :: "char \<Rightarrow> bool" where
  "is_space c = (c \<in> {CHR 0x09, CHR 0x0A, CHR 0x0B, CHR 0x0C, CHR 0x0D, CHR 0x20, CHR 0xA0})"

definition trim :: "string \<Rightarrow> string" where
  "trim s = rev (dropWhile is_space (rev (dropWhile is_space s)))"

definition newline :: char where
  "newline = CHR 0x0A"



section \<open>DocumentService (server/documentService.ts)\<close>

definition getDeceasedFullName :: "jsval \<Rightarrow> js_error + string" where
  "getDeceasedFullName arrangementData =
     and_then (get_prop arrangementData ''arrangement'') (\<lambda>arr.
     and_then (opt_prop arr ''basic_information'') (\<lambda>basic.
     and_then (opt_prop basic ''deceased_name'') (\<lambda>deceasedName.
       if \<not> truthy deceasedName then Inr []
       else
         and_then (get_prop deceasedName ''first'') (\<lambda>first.
         and_then (get_prop deceasedName ''middle'') (\<lambda>middle.
         and_then (get_prop deceasedName ''last'') (\<lambda>last.
         and_then (get_prop deceasedName ''suffix'') (\<lambda>suffix.
         and_then (to_strings (filter truthy [first, middle, last, suffix])) (\<lambda>parts.
           Inr (join '' '' parts)))))))))"

text \<open>
  \<^verbatim>\<open>getFormattedDate()\<close> formats the current date; its result is the parameter
  \<open>today\<close>. The two fallback templates are transcribed line by line.
\<close>

definition getFallbackArrangerTasks :: "string \<Rightarrow> jsval \<Rightarrow> js_error + string" where
  \<open>getFallbackArrangerTasks today arrangementData =
     and_then (get_prop arrangementData ''arrangement'') (\<lambda>arr.
     and_then (opt_prop arr ''basic_information'') (\<lambda>bi.
     and_then (opt_prop arr ''arrangements'') (\<lambda>ag.
     let basic = or_else bi (JObj []); arrangements = or_else ag (JObj []) in
     and_then (getDeceasedFullName arrangementData) (\<lambda>fullName.
     and_then (get_prop arrangements ''service_date'') (\<lambda>service_date.
     and_then (to_string (or_else service_date (JStr ''TBD''))) (\<lambda>date_s.
     and_then (get_prop arrangements ''service_time'') (\<lambda>service_time.
     and_then (to_string (or_else service_time (JStr ''TBD''))) (\<lambda>time_s.
     and_then (get_prop arrangements ''funeral_service_place'') (\<lambda>place.
     and_then (to_string (or_else place (JStr ''TBD''))) (\<lambda>place_s.
       Inr (join [newline]
        [''# Family Arranger To-Do List'',
         fullName,
         ''<div style="text-align: right;">Generated: '' @ today @ ''</div>'',
         '''',
         ''---'',
         '''',
         ''## Immediate Tasks (Next 24 Hours)'',
         ''- [ ] Contact close family members and friends'',
         ''- [ ] Confirm service details: '' @ date_s @ '' at '' @ time_s,
         ''- [ ] Verify venue: '' @ place_s,
         '''',
         ''## Pre-Service Tasks (2-4 Days Before)'',
         ''- [ ] Arrange catering for reception'',
         ''- [ ] Order flowers and arrangements'',
         ''- [ ] Prepare eulogy and readings'',
         ''- [ ] Coordinate family transportation'',
         ''- [ ] Send guest notifications'',
         '''',
         ''## Day Before Service'',
         ''- [ ] Confirm all arrangements'',
         ''- [ ] Prepare memorial materials'',
         ''- [ ] Brief family on service order'',
         '''',
         ''## Day of Service'',
         ''- [ ] Arrive early for setup'',
         ''- [ ] Coordinate with funeral director'',
         ''- [ ] Greet guests and manage reception'',
         '''',
         ''## After Service'',
         ''- [ ] Send thank you notes'',
         ''- [ ] Handle final tasks'',
         ''- [ ] Coordinate memorial donations'',
         '''',
         ''*Consult with your funeral director for additional requirements.*''])))))))))))\<close>

definition getFallbackTasks :: "string \<Rightarrow> jsval \<Rightarrow> js_error + string" where
  \<open>getFallbackTasks today arrangementData =
     and_then (get_prop arrangementData ''arrangement'') (\<lambda>arr.
     and_then (opt_prop arr ''basic_information'') (\<lambda>bi.
     and_then (opt_prop arr ''arrangements'') (\<lambda>ag.
     let basic = or_else bi (JObj []); arrangements = or_else ag (JObj []) in
     and_then (getDeceasedFullName arrangementData) (\<lambda>fullName.
     and_then (get_prop basic ''deceased_name'') (\<lambda>deceased_name.
     and_then (opt_prop deceased_name ''first'') (\<lambda>first.
     and_then (to_string first) (\<lambda>first_s.
     and_then (opt_prop deceased_name ''last'') (\<lambda>last.
     and_then (to_string last) (\<lambda>last_s.
     and_then (get_prop arrangements ''service_date'') (\<lambda>service_date.
     and_then (to_string (or_else service_date (JStr ''TBD''))) (\<lambda>date_s.
       Inr (join [newline]
        [''# Funeral Director Task Checklist'',
         fullName,
         ''<div style="text-align: right;">Generated: '' @ today @ ''</div>'',
         '''',
         ''---'',
         '''',
         ''## Immediate Tasks (24 Hours)'',
         ''- [ ] Complete death certificate coordination'',
         ''- [ ] Prepare legal documentation'',
         ''- [ ] Follow up with family consultation'',
         ''- [ ] Schedule facility arrangements'',
         '''',
         ''## Pre-Service Tasks (1-3 Days)'',
         ''- [ ] Setup service arrangements'',
         ''- [ ] Confirm vendor services'',
         ''- [ ] Assign staff responsibilities'',
         ''- [ ] Prepare equipment and facilities'',
         '''',
         ''## Day of Service'',
         ''- [ ] Coordinate service execution'',
         ''- [ ] Manage staff and logistics'',
         ''- [ ] Provide technical support'',
         ''- [ ] Oversee ceremonial duties'',
         '''',
         ''## Post-Service'',
         ''- [ ] Complete documentation'',
         ''- [ ] Process final billing'',
         ''- [ ] Coordinate facility cleanup'',
         ''- [ ] Follow up with family'',
         '''',
         ''Service Details: '' @ first_s @ '' '' @ last_s @ '' - '' @ date_s]))))))))))))\<close>

text \<open>
  \<^verbatim>\<open>getPromptForType\<close> fills a fixed instruction text per type with
  \<^verbatim>\<open>JSON.stringify(arrangementData)\<close>, the transcript, the deceased's full name and
  the date (and the style list for an obituary). The prompt is kept as these
  ingredients; the fixed wording, which only the language model reads, is not
  reproduced. It throws where the source does: on \<^verbatim>\<open>undefined\<close> or \<^verbatim>\<open>null\<close> data,
  inside \<^verbatim>\<open>getDeceasedFullName\<close>, and on an unknown type.
\<close>

record prompt =
  prompt_type :: string
  prompt_data :: jsval
  prompt_transcript :: string
  prompt_fullName :: string
  prompt_date :: string
  prompt_styles :: "string list option"

definition getPromptForType ::
  "string \<Rightarrow> string \<Rightarrow> jsval \<Rightarrow> string \<Rightarrow> string list option \<Rightarrow> js_error + prompt" where
  "getPromptForType today type arrangementData transcriptContent styleSpecifications =
     and_then (get_prop arrangementData ''arrangement'') (\<lambda>arr.
     and_then (opt_prop arr ''basic_information'') (\<lambda>bi.
     and_then (opt_prop arr ''arrangements'') (\<lambda>ag.
     and_then (opt_prop arr ''informant'') (\<lambda>inf.
       if type \<in> set [''contract'', ''summary'', ''obituary'', ''tasks'', ''arranger_tasks'',
                       ''death_cert'']
       then
         and_then (getDeceasedFullName arrangementData) (\<lambda>fullName.
           Inr \<lparr>prompt_type = type, prompt_data = arrangementData,
                prompt_transcript = transcriptContent, prompt_fullName = fullName,
                prompt_date = today,
                prompt_styles = (if type = ''obituary'' then styleSpecifications else None)\<rparr>)
       else Inl (Error (''Unknown document type: '' @ type))))))"

text \<open>
  The outcome of one request to the language model, raced against the 15 second timer:
  the timer wins, the request rejects (or reading the response throws), the request
  resolves without a response, or it resolves with a text. The model is an oracle
  \<open>llm\<close> from the number of requests issued so far and the prompt; the count is
  threaded through, so that each request can answer differently and the number of
  requests a call issues can be read off.
\<close>

datatype llm_outcome =
    Timeout
  | Rejected js_error
  | NoResponse
  | Content string

definition llm_result :: "string \<Rightarrow> llm_outcome \<Rightarrow> js_error + string" where
  "llm_result type outcome =
     (case outcome of
        Timeout \<Rightarrow> Inl (Error ''AI service timeout - request took too long'')
      | Rejected e \<Rightarrow> Inl e
      | NoResponse \<Rightarrow> Inl (Error ''No response received from AI service'')
      | Content content \<Rightarrow>
          if content = [] \<or> trim content = []
          then Inl (Error (''Empty content received for '' @ type @ '' document''))
          else Inr content)"

definition generateDocument ::
  "(nat \<Rightarrow> prompt \<Rightarrow> llm_outcome) \<Rightarrow> string \<Rightarrow> nat \<Rightarrow> string \<Rightarrow> jsval \<Rightarrow> string
     \<Rightarrow> string list option \<Rightarrow> (js_error + string) \<times> nat" where
  "generateDocument llm today calls type arrangementData transcriptContent styleSpecifications =
     (let attempt =
        (case getPromptForType today type arrangementData transcriptContent
                styleSpecifications of
           Inl e \<Rightarrow> (Inl e, calls)
         | Inr p \<Rightarrow> (llm_result type (llm calls p), Suc calls))
      in case fst attempt of
           Inr content \<Rightarrow> (Inr content, snd attempt)
         | Inl error \<Rightarrow>
             (if type = ''arranger_tasks'' then getFallbackArrangerTasks today arrangementData
              else if type = ''tasks'' then getFallbackTasks today arrangementData
              else Inl (Error (''Failed to generate '' @ type @ '' document: '' @ message error)),
              snd attempt))"

text \<open>
  \<^verbatim>\<open>arrangements.k\<close> as both fallback templates read it, with
  \<^verbatim>\<open>arrangements = arrangementData.arrangement?.arrangements || {}\<close>; and the
  condition that this value converts to a string when the template prints it.
\<close>

definition arrangements_field :: "jsval \<Rightarrow> string \<Rightarrow> js_error + jsval" where
  "arrangements_field arrangementData k =
     and_then (get_prop arrangementData ''arrangement'') (\<lambda>arr.
     and_then (opt_prop arr ''arrangements'') (\<lambda>ag.
       get_prop (or_else ag (JObj [])) k))"

definition printable :: "jsval \<Rightarrow> string \<Rightarrow> bool" where
  "printable arrangementData k =
     (case arrangements_field arrangementData k of
        Inl e \<Rightarrow> False
      | Inr v \<Rightarrow> coercible v)"

section \<open>Storage operations used by the approval workflow\<close>

definition getTranscriptsByUserId :: "db \<Rightarrow> nat \<Rightarrow> transcript list" where
  "getTranscriptsByUserId st uid =
     rev (sort_key transcript_uploadDate (filter (\<lambda>t. transcript_userId t = uid) (transcripts st)))"

definition getAllUsers :: "db \<Rightarrow> user list" where
  "getAllUsers st = rev (sort_key user_createdAt (users st))"





section \<open>Approval workflow (server/routes.ts, server/pdfService.ts)\<close>
















section \<open>Admin role change (server/routes.ts, server/storage.ts)\<close>

text \<open>
  \<^verbatim>\<open>parseInt(s)\<close> with no radix: leading white space, an optional sign, an optional
  \<^verbatim>\<open>0x\<close> prefix, then the longest run of digits; \<^verbatim>\<open>NaN\<close> (here \<open>None\<close>)
  when there is no digit.
\<close>

definition digit_value :: "char \<Rightarrow> nat option" where
  "digit_value c =
     (let n = (of_char c :: nat) in
      if 48 \<le> n \<and> n \<le> 57 then Some (n - 48)
      else if 97 \<le> n \<and> n \<le> 102 then Some (n - 87)
      else if 65 \<le> n \<and> n \<le> 70 then Some (n - 55)
      else None)"

definition is_digit_in :: "nat \<Rightarrow> char \<Rightarrow> bool" where
  "is_digit_in radix c = (case digit_value c of None \<Rightarrow> False | Some d \<Rightarrow> d < radix)"

definition digits_value :: "nat \<Rightarrow> string \<Rightarrow> nat" where
  "digits_value radix ds = foldl (\<lambda>a c. a * radix + the (digit_value c)) 0 ds"

definition parseInt :: "string \<Rightarrow> int option" where
  "parseInt s =
     (let s1 = dropWhile is_space s;
          negative = (take 1 s1 = ''-'');
          s2 = (if take 1 s1 = ''-'' \<or> take 1 s1 = ''+'' then drop 1 s1 else s1);
          hex = (take 2 s2 = ''0x'' \<or> take 2 s2 = ''0X'');
          radix = (if hex then 16 else 10);
          s3 = (if hex then drop 2 s2 else s2);
          ds = takeWhile (is_digit_in radix) s3
      in if ds = [] then None
         else Some ((if negative then - 1 else 1) * int (digits_value radix ds)))"

definition updateUserRole :: "timestamp \<Rightarrow> db \<Rightarrow> int \<Rightarrow> string \<Rightarrow> db \<times> user option" where
  "updateUserRole now st userId role =
     (let st' = st\<lparr>users := map (\<lambda>u. if int (user_id u) = userId
                                       then u\<lparr>user_role := role, user_updatedAt := now\<rparr>
                                       else u) (users st)\<rparr>
      in (st', find (\<lambda>u. int (user_id u) = userId) (users st')))"

definition createBillingPeriod :: "timestamp \<Rightarrow> db \<Rightarrow> nat \<Rightarrow> timestamp \<Rightarrow> string \<Rightarrow> db" where
  "createBillingPeriod now st userId periodStart role =
     st\<lparr>userBillingPeriods := userBillingPeriods st @
            [\<lparr>period_id = userBillingPeriods_seq st, period_userId = userId,
              period_periodStart = periodStart, period_periodEnd = None, period_role = role,
              period_transcriptsProcessed = 0, period_documentsGenerated = 0,
              period_isActive = True, period_createdAt = now\<rparr>],
        userBillingPeriods_seq := Suc (userBillingPeriods_seq st)\<rparr>"

definition updateUserRoleAndResetBilling ::
  "timestamp \<Rightarrow> db \<Rightarrow> int \<Rightarrow> string \<Rightarrow> db \<times> (js_error + user)" where
  "updateUserRoleAndResetBilling now st userId newRole =
     (let st' = st\<lparr>users := map (\<lambda>u. if int (user_id u) = userId
                                       then u\<lparr>user_role := newRole,
                                              user_billingPeriodStart := now,
                                              user_updatedAt := now\<rparr>
                                       else u) (users st)\<rparr>
      in case find (\<lambda>u. int (user_id u) = userId) (users st') of
           None \<Rightarrow> (st', Inl (Error ''User not found''))
         | Some updatedUser \<Rightarrow>
             (createBillingPeriod now st' (user_id updatedUser) now newRole, Inr updatedUser))"

text \<open>
  A request as the two handlers see it: the path split at the slashes, the outcome of
  the token check and the \<^verbatim>\<open>role\<close> field of the body.
\<close>

datatype token_check = NoToken | InvalidToken | Verified auth_user

record put_request =
  req_path :: "string list"
  req_token :: token_check
  req_role :: "string option"

datatype segment = Lit string | Param string

fun match_path :: "segment list \<Rightarrow> string list \<Rightarrow> (string \<times> string) list option" where
  "match_path [] [] = Some []"
| "match_path (Lit l # ps) (s # ss) = (if l = s then match_path ps ss else None)"
| "match_path (Param n # ps) (s # ss) =
     (if s = [] then None else map_option (\<lambda>m. (n, s) # m) (match_path ps ss))"
| "match_path [] (s # ss) = None"
| "match_path (p # ps) [] = None"

text \<open>
  The \<^verbatim>\<open>app.put\<close> registrations of \<^verbatim>\<open>registerRoutes\<close>, in source order
  (lines 225, 263, 316, 615, 652 and 1272). Express tries the routes in the order of
  registration and runs the first that matches; a handler that answers without calling
  \<^verbatim>\<open>next()\<close> ends the request.
\<close>

datatype put_route =
    AuthProfile
  | AuthPassword
  | AdminUsersIdRole
  | TranscriptsIdArrangement
  | ArrangementsTranscriptId
  | AdminUsersUserIdRole

definition put_routes :: "(segment list \<times> put_route) list" where
  "put_routes =
     [([Lit ''api'', Lit ''auth'', Lit ''profile''], AuthProfile),
      ([Lit ''api'', Lit ''auth'', Lit ''password''], AuthPassword),
      ([Lit ''api'', Lit ''admin'', Lit ''users'', Param ''id'', Lit ''role''], AdminUsersIdRole),
      ([Lit ''api'', Lit ''transcripts'', Param ''id'', Lit ''arrangement''],
         TranscriptsIdArrangement),
      ([Lit ''api'', Lit ''arrangements'', Param ''transcriptId''], ArrangementsTranscriptId),
      ([Lit ''api'', Lit ''admin'', Lit ''users'', Param ''userId'', Lit ''role''],
         AdminUsersUserIdRole)]"

fun first_match ::
  "(segment list \<times> 'r) list \<Rightarrow> string list \<Rightarrow> ('r \<times> (string \<times> string) list) option" where
  "first_match [] path = None"
| "first_match ((pat, r) # rs) path =
     (case match_path pat path of
        Some params \<Rightarrow> Some (r, params)
      | None \<Rightarrow> first_match rs path)"

text \<open>\<^verbatim>\<open>authenticateToken\<close>, then \<^verbatim>\<open>requireAdmin\<close>, then the handler.\<close>

definition admin_only ::
  "db \<Rightarrow> token_check \<Rightarrow> (auth_user \<Rightarrow> db \<times> response) \<Rightarrow> db \<times> response" where
  "admin_only st token handler =
     (case token of
        NoToken \<Rightarrow> (st, status_json 401 (Message ''Access token required''))
      | InvalidToken \<Rightarrow> (st, status_json 403 (Message ''Invalid or expired token''))
      | Verified req_user \<Rightarrow>
          if auth_role req_user \<noteq> ''admin''
          then (st, status_json 403 (Message ''Admin access required''))
          else handler req_user)"

definition param_int :: "(string \<times> string) list \<Rightarrow> string \<Rightarrow> int option" where
  "param_int params name = (case map_of params name of None \<Rightarrow> None | Some s \<Rightarrow> parseInt s)"

text \<open>
  The handler registered at line 316. A \<^verbatim>\<open>NaN\<close> id matches no row; with no row
  updated, \<^verbatim>\<open>updatedUser.id\<close> throws and the \<^verbatim>\<open>catch\<close> answers 500.
\<close>

definition put_admin_users_id_role ::
  "timestamp \<Rightarrow> db \<Rightarrow> auth_user \<Rightarrow> int option \<Rightarrow> string option \<Rightarrow> db \<times> response" where
  "put_admin_users_id_role now st req_user userId role_field =
     (case role_field of
        None \<Rightarrow> (st, status_json 400 (Message ''Valid role is required (user, premium, admin)''))
      | Some role \<Rightarrow>
          if role \<notin> set [''user'', ''premium'', ''admin'']
          then (st, status_json 400 (Message ''Valid role is required (user, premium, admin)''))
          else if userId = Some (int (auth_userId req_user)) \<and> role \<noteq> ''admin''
          then (st, status_json 400 (Message ''Cannot change your own admin role''))
          else
            (case userId of
               None \<Rightarrow> (st, status_json 500
                          (Message (''Cannot read properties of undefined (reading ''
                             @ [CHR 0x27] @ ''id'' @ [CHR 0x27] @ '')'')))
             | Some i \<Rightarrow>
                 (case updateUserRole now st i role of
                    (st', None) \<Rightarrow> (st', status_json 500
                          (Message (''Cannot read properties of undefined (reading ''
                             @ [CHR 0x27] @ ''id'' @ [CHR 0x27] @ '')'')))
                  | (st', Some updatedUser) \<Rightarrow>
                      (st', json (SafeUserBody
                         \<lparr>safe_id = user_id updatedUser, safe_email = user_email updatedUser,
                          safe_name = user_name updatedUser,
                          safe_funeralHome = user_funeralHome updatedUser,
                          safe_role = user_role updatedUser,
                          safe_createdAt = user_createdAt updatedUser,
                          safe_updatedAt = user_updatedAt updatedUser\<rparr>)))))"

text \<open>The handler registered at line 1272 (``User role management with billing reset'').\<close>

definition put_admin_users_userId_role ::
  "timestamp \<Rightarrow> db \<Rightarrow> auth_user \<Rightarrow> int option \<Rightarrow> string option \<Rightarrow> db \<times> response" where
  "put_admin_users_userId_role now st req_user userId role_field =
     (case role_field of
        None \<Rightarrow> (st, status_json 400 (Message ''Role is required''))
      | Some role \<Rightarrow>
          if role = [] then (st, status_json 400 (Message ''Role is required''))
          else
            (case userId of
               None \<Rightarrow> (st, status_json 500 (Message ''User not found''))
             | Some i \<Rightarrow>
                 (case updateUserRoleAndResetBilling now st i role of
                    (st', Inl e) \<Rightarrow> (st', status_json 500 (Message (message e)))
                  | (st', Inr updatedUser) \<Rightarrow>
                      (st', json (RoleResetBody
                         ''User role updated and billing period reset'' updatedUser)))))"

text \<open>
  A \<^verbatim>\<open>PUT\<close> request: \<open>None\<close> when no role-change route takes it (another route of
  the table, or none, does).
\<close>

definition handle_put :: "timestamp \<Rightarrow> db \<Rightarrow> put_request \<Rightarrow> (db \<times> response) option" where
  "handle_put now st req =
     (case first_match put_routes (req_path req) of
        Some (AdminUsersIdRole, params) \<Rightarrow>
          Some (admin_only st (req_token req)
                  (\<lambda>u. put_admin_users_id_role now st u (param_int params ''id'') (req_role req)))
      | Some (AdminUsersUserIdRole, params) \<Rightarrow>
          Some (admin_only st (req_token req)
                  (\<lambda>u. put_admin_users_userId_role now st u (param_int params ''userId'')
                         (req_role req)))
      | _ \<Rightarrow> None)"

section \<open>Metric reconciliation (server/routes.ts)\<close>

text \<open>
  The handler of \<^verbatim>\<open>POST /api/admin/reconcile-metrics\<close>. The module
  \<^verbatim>\<open>routes.ts\<close> binds neither \<^verbatim>\<open>db\<close> nor \<^verbatim>\<open>userUsageMetrics\<close>,
  \<^verbatim>\<open>documents\<close>, \<^verbatim>\<open>arrangements\<close>, \<^verbatim>\<open>and\<close> or \<^verbatim>\<open>eq\<close> (its imports are
  lines 1 to 16). In an iteration of the loop over the users the handler reads the
  user's transcripts through the storage, filters the processed ones, and then
  evaluates \<^verbatim>\<open>db\<close> in \<^verbatim>\<open>await db.select()\<close>, which throws a ReferenceError.
  The statements after it in the loop body are never reached. The state carries the two
  counters, which the handler reports when the loop ends.
\<close>

record reconcile_state =
  reconcile_db :: db
  totalTranscriptsBackfilled :: nat
  totalDocumentsBackfilled :: nat

definition reconcile_user :: "reconcile_state \<Rightarrow> user \<Rightarrow> reconcile_state \<times> js_error option" where
  "reconcile_user s u =
     (let st = reconcile_db s;
          user_transcripts = getTranscriptsByUserId st (user_id u);
          processedTranscripts =
            filter (\<lambda>t. transcript_status t = ''processed'') user_transcripts
      in (s, Some (ReferenceError ''db is not defined'')))"

text \<open>\<^verbatim>\<open>for (const user of users)\<close>: an exception leaves the loop.\<close>

fun reconcile_users ::
  "reconcile_state \<Rightarrow> user list \<Rightarrow> reconcile_state \<times> js_error option" where
  "reconcile_users s [] = (s, None)"
| "reconcile_users s (u # us) =
     (case reconcile_user s u of
        (s', Some e) \<Rightarrow> (s', Some e)
      | (s', None) \<Rightarrow> reconcile_users s' us)"

text \<open>
  The route, after \<^verbatim>\<open>authenticateToken\<close> and \<^verbatim>\<open>requireAdmin\<close>: the database it
  leaves and its response. The \<^verbatim>\<open>catch\<close> block answers 500 with the message of the
  error.
\<close>

definition reconcile_metrics_route :: "db \<Rightarrow> db \<times> response" where
  "reconcile_metrics_route st =
     (case reconcile_users
             \<lparr>reconcile_db = st, totalTranscriptsBackfilled = 0,
              totalDocumentsBackfilled = 0\<rparr>
             (getAllUsers st) of
        (s, None) \<Rightarrow>
          (reconcile_db s,
           json (ReconcileBody ''Historical usage metrics reconciled successfully''
                   (totalTranscriptsBackfilled s) (totalDocumentsBackfilled s)))
      | (s, Some e) \<Rightarrow> (reconcile_db s, status_json 500 (Message (message e))))"

section \<open>Markdown parsing of the direct-draw backend (server/improvedPdfService.ts)\<close>

text \<open>\<^verbatim>\<open>content.split('\n')\<close>: the pieces between line feeds, at least one.\<close>

fun split_lines :: "string \<Rightarrow> string list" where
  "split_lines [] = [[]]"
| "split_lines (c # cs) =
     (if c = newline then [] # split_lines cs
      else (case split_lines cs of
              [] \<Rightarrow> [[c]]
            | l # ls \<Rightarrow> (c # l) # ls))"

definition is_digit :: "char \<Rightarrow> bool" where
  "is_digit c = (let n = (of_char c :: nat) in 48 \<le> n \<and> n \<le> 57)"

definition startsWith :: "string \<Rightarrow> string \<Rightarrow> bool" where
  "startsWith s p = (take (length p) s = p)"

text \<open>
  \<open>hashes_space n s\<close>: the line matches \<^verbatim>\<open>^#{n}\s+\<close>, that is \<open>n\<close> hash signs
  and then at least one white-space character. \<open>strip_hashes_space n s\<close> is the
  line without that match (the white-space run is greedy).
\<close>

definition hashes_space :: "nat \<Rightarrow> string \<Rightarrow> bool" where
  "hashes_space n s =
     (take n s = replicate n (CHR ''#'') \<and> drop n s \<noteq> [] \<and> is_space (hd (drop n s)))"

definition strip_hashes_space :: "nat \<Rightarrow> string \<Rightarrow> string" where
  "strip_hashes_space n s = dropWhile is_space (drop n s)"

text \<open>\<^verbatim>\<open>^\d+\.\s\<close>: digits, a full stop, one white-space character.\<close>

definition ordinal_prefix :: "string \<Rightarrow> string option" where
  "ordinal_prefix s =
     (let ds = takeWhile is_digit s; r = dropWhile is_digit s
      in if ds \<noteq> [] \<and> take 1 r = ''.'' \<and> drop 1 r \<noteq> [] \<and> is_space (hd (drop 1 r))
         then Some (drop 2 r) else None)"

text \<open>\<^verbatim>\<open>line.replace(/^[-*]\s|^\d+\.\s/, '')\<close>.\<close>

definition strip_list_marker :: "string \<Rightarrow> string" where
  "strip_list_marker s =
     (if s \<noteq> [] \<and> (hd s = CHR ''-'' \<or> hd s = CHR ''*'') \<and> drop 1 s \<noteq> []
         \<and> is_space (hd (drop 1 s))
      then drop 2 s
      else (case ordinal_prefix s of Some r \<Rightarrow> r | None \<Rightarrow> s))"

datatype content_type = Header | Paragraph | ListItem | Separator

record parsedContent =
  pc_type :: content_type
  pc_level :: "nat option"
  pc_content :: string
  pc_fontSize :: "nat option"
  pc_bold :: bool

definition parse_line :: "string \<Rightarrow> parsedContent" where
  "parse_line line =
     (if hashes_space 3 line
      then \<lparr>pc_type = Header, pc_level = Some 3, pc_content = strip_hashes_space 3 line,
            pc_fontSize = Some 14, pc_bold = True\<rparr>
      else if hashes_space 2 line
      then \<lparr>pc_type = Header, pc_level = Some 2, pc_content = strip_hashes_space 2 line,
            pc_fontSize = Some 16, pc_bold = True\<rparr>
      else if hashes_space 1 line \<and> \<not> startsWith line ''##''
      then \<lparr>pc_type = Header, pc_level = Some 1, pc_content = strip_hashes_space 1 line,
            pc_fontSize = Some 18, pc_bold = True\<rparr>
      else if startsWith line ''---'' \<or> line = ''___''
      then \<lparr>pc_type = Separator, pc_level = None, pc_content = [], pc_fontSize = None,
            pc_bold = False\<rparr>
      else if startsWith line ''- '' \<or> startsWith line ''* '' \<or> ordinal_prefix line \<noteq> None
      then \<lparr>pc_type = ListItem, pc_level = None, pc_content = strip_list_marker line,
            pc_fontSize = Some 11, pc_bold = False\<rparr>
      else \<lparr>pc_type = Paragraph, pc_level = None, pc_content = line, pc_fontSize = Some 11,
            pc_bold = False\<rparr>)"

definition parseMarkdownContent :: "string \<Rightarrow> parsedContent list" where
  "parseMarkdownContent content =
     map parse_line (filter (\<lambda>line. line \<noteq> []) (map trim (split_lines content)))"

section \<open>Header conversion of the HTML backend (server/pdfService.ts)\<close>

text \<open>
  The first statements of \<^verbatim>\<open>EnhancedPDFService.markdownToHTML\<close> (lines 808 to 823):
  line endings are normalised, then eight global multi-line replacements turn hash
  runs at the start of a line into heading elements. In such a pattern \<^verbatim>\<open>^\<close>
  matches at the start of the text and after a line terminator, \<^verbatim>\<open>.\<close> matches any
  character but a line terminator, and \<^verbatim>\<open>$\<close> matches before one or at the end.
\<close>

definition is_line_terminator :: "char \<Rightarrow> bool" where
  "is_line_terminator c = (c = CHR 0x0A \<or> c = CHR 0x0D)"

fun normalize_line_endings :: "string \<Rightarrow> string" where
  "normalize_line_endings [] = []"
| "normalize_line_endings [c] = (if c = CHR 0x0D then [CHR 0x0A] else [c])"
| "normalize_line_endings (c # d # cs) =
     (if c = CHR 0x0D \<and> d = CHR 0x0A then CHR 0x0A # normalize_line_endings cs
      else if c = CHR 0x0D then CHR 0x0A # normalize_line_endings (d # cs)
      else c # normalize_line_endings (d # cs))"

definition heading :: "nat \<Rightarrow> string \<Rightarrow> string" where
  "heading n inner =
     ''<h'' @ [char_of (48 + n)] @ ''>'' @ inner @ ''</h'' @ [char_of (48 + n)] @ ''>''"

text \<open>
  \<^verbatim>\<open>html.replace(/^#{n}\s*(.*$)/gm, '<hn>$1</hn>')\<close>; \<open>bol\<close> tells whether the
  scan stands at the start of a line. After \<open>n\<close> hashes the white-space run (which may
  cross line ends) and the rest of the line always match.
\<close>

function replace_hashes :: "nat \<Rightarrow> bool \<Rightarrow> string \<Rightarrow> string" where
  "replace_hashes n bol s =
     (if s = [] then []
      else if bol \<and> 0 < n \<and> take n s = replicate n (CHR ''#'')
      then (let r = dropWhile is_space (drop n s)
            in heading n (takeWhile (\<lambda>c. \<not> is_line_terminator c) r)
                 @ replace_hashes n False (dropWhile (\<lambda>c. \<not> is_line_terminator c) r))
      else hd s # replace_hashes n (is_line_terminator (hd s)) (tl s))"
  by pat_completeness auto
termination
proof (relation "measure (\<lambda>(n, bol, s). length s)")
  show "wf (measure (\<lambda>(n, bol, s). length s))" by simp
next
  fix n :: nat and bol :: bool and s :: string and r :: string
  assume a: "s \<noteq> []" "bol \<and> 0 < n \<and> take n s = replicate n (CHR ''#'')"
    and r: "r = dropWhile is_space (drop n s)"
  have "length (dropWhile (\<lambda>c. \<not> is_line_terminator c) r) \<le> length r"
    by (rule length_dropWhile_le)
  also have "length r \<le> length (drop n s)"
    unfolding r by (rule length_dropWhile_le)
  also have "length (drop n s) < length s"
    using a by (cases s) auto
  finally show "((n, False, dropWhile (\<lambda>c. \<not> is_line_terminator c) r), (n, bol, s))
                  \<in> measure (\<lambda>(n, bol, s). length s)"
    by simp
next
  fix n :: nat and bol :: bool and s :: string
  assume "s \<noteq> []"
  then show "((n, is_line_terminator (hd s), tl s), (n, bol, s))
               \<in> measure (\<lambda>(n, bol, s). length s)"
    by (cases s) auto
qed

text \<open>
  \<^verbatim>\<open>html.replace(/^#...#([^#].*$)/gm, '<hn>$1</hn>')\<close> with \<open>n\<close> hashes: the
  character after the hashes is any character but a hash.
\<close>

function replace_hashes_nospace :: "nat \<Rightarrow> bool \<Rightarrow> string \<Rightarrow> string" where
  "replace_hashes_nospace n bol s =
     (if s = [] then []
      else if bol \<and> 0 < n \<and> take n s = replicate n (CHR ''#'') \<and> drop n s \<noteq> []
              \<and> hd (drop n s) \<noteq> CHR ''#''
      then (let r = tl (drop n s)
            in heading n (hd (drop n s) # takeWhile (\<lambda>c. \<not> is_line_terminator c) r)
                 @ replace_hashes_nospace n False (dropWhile (\<lambda>c. \<not> is_line_terminator c) r))
      else hd s # replace_hashes_nospace n (is_line_terminator (hd s)) (tl s))"
  by pat_completeness auto
termination
proof (relation "measure (\<lambda>(n, bol, s). length s)")
  show "wf (measure (\<lambda>(n, bol, s). length s))" by simp
next
  fix n :: nat and bol :: bool and s :: string and r :: string
  assume a: "s \<noteq> []"
    "bol \<and> 0 < n \<and> take n s = replicate n (CHR ''#'') \<and> drop n s \<noteq> []
       \<and> hd (drop n s) \<noteq> CHR ''#''"
    and r: "r = tl (drop n s)"
  have "length (dropWhile (\<lambda>c. \<not> is_line_terminator c) r) \<le> length r"
    by (rule length_dropWhile_le)
  also have "length r < length s"
    using a unfolding r by (cases s) auto
  finally show "((n, False, dropWhile (\<lambda>c. \<not> is_line_terminator c) r), (n, bol, s))
                  \<in> measure (\<lambda>(n, bol, s). length s)"
    by simp
next
  fix n :: nat and bol :: bool and s :: string
  assume "s \<noteq> []"
  then show "((n, is_line_terminator (hd s), tl s), (n, bol, s))
               \<in> measure (\<lambda>(n, bol, s). length s)"
    by (cases s) auto
qed

definition markdownToHTML_headers :: "string \<Rightarrow> string" where
  "markdownToHTML_headers content =
     (let html = normalize_line_endings content;
          html = replace_hashes 4 True html;
          html = replace_hashes 3 True html;
          html = replace_hashes 2 True html;
          html = replace_hashes 1 True html;
          html = replace_hashes_nospace 4 True html;
          html = replace_hashes_nospace 3 True html;
          html = replace_hashes_nospace 2 True html;
          html = replace_hashes_nospace 1 True html
      in html)"

section \<open>Layout of the direct-draw backend (server/improvedPdfService.ts)\<close>

text \<open>
  Coordinates are points. The vertical cursor only ever takes the values produced by
  adding the integer constants of the source to the start position, so exact
  rational arithmetic is what the source computes for it; text widths, which jsPDF
  measures, are rationals as well.
\<close>

datatype font_style = Normal | Bold | Italic | BoldItalic

text \<open>
  What the layout sends to the jsPDF document, in order: \<^verbatim>\<open>addPage()\<close>, a text at
  \<open>(x, y)\<close> in a font style and size, a block of lines at \<open>(x, y)\<close> (the header
  call passes the array that \<^verbatim>\<open>splitTextToSize\<close> returned), the bullet glyph, and a
  straight line.
\<close>

datatype draw =
    AddPage
  | Text font_style nat string rat rat
  | TextLines font_style nat "string list" rat rat
  | Bullet rat rat
  | Line rat rat rat rat

text \<open>
  jsPDF's \<^verbatim>\<open>getTextWidth\<close> (in the current font) and \<^verbatim>\<open>splitTextToSize\<close> are
  parameters.
\<close>

record metrics =
  getTextWidth :: "font_style \<Rightarrow> nat \<Rightarrow> string \<Rightarrow> rat"
  splitTextToSize :: "nat \<Rightarrow> string \<Rightarrow> rat \<Rightarrow> string list"

record inline_segment =
  seg_text :: string
  seg_bold :: bool
  seg_italic :: bool
  seg_underline :: bool

definition plain_segment :: "string \<Rightarrow> inline_segment" where
  "plain_segment s = \<lparr>seg_text = s, seg_bold = False, seg_italic = False, seg_underline = False\<rparr>"

definition bold_segment :: "string \<Rightarrow> inline_segment" where
  "bold_segment s = \<lparr>seg_text = s, seg_bold = True, seg_italic = False, seg_underline = False\<rparr>"

text \<open>
  A match of \<^verbatim>\<open>\*\*([^*]+)\*\*\<close> at the start of \<open>s\<close>: the text between the
  markers and the text after the match. The class is greedy and stops at the first
  star, so the closing marker must stand right there.
\<close>

definition bold_at :: "string \<Rightarrow> (string \<times> string) option" where
  "bold_at s =
     (if take 2 s = ''**''
      then (let inner = takeWhile (\<lambda>c. c \<noteq> CHR ''*'') (drop 2 s);
                rest = dropWhile (\<lambda>c. c \<noteq> CHR ''*'') (drop 2 s)
            in if inner \<noteq> [] \<and> take 2 rest = ''**'' then Some (inner, drop 2 rest) else None)
      else None)"

text \<open>The leftmost match: the text before it, the text between the markers, the text after.\<close>

fun find_bold :: "string \<Rightarrow> (string \<times> string \<times> string) option" where
  "find_bold [] = None"
| "find_bold (c # cs) =
     (case bold_at (c # cs) of
        Some (inner, rest) \<Rightarrow> Some ([], inner, rest)
      | None \<Rightarrow> (case find_bold cs of
                   None \<Rightarrow> None
                 | Some (pre, inner, rest) \<Rightarrow> Some (c # pre, inner, rest)))"

lemma bold_at_shorter: "bold_at s = Some (inner, rest) \<Longrightarrow> length rest < length s"
proof -
  assume a: "bold_at s = Some (inner, rest)"
  then have t: "take 2 s = ''**''"
    by (auto simp: bold_at_def split: if_splits)
  from a t have r: "rest = drop 2 (dropWhile (\<lambda>c. c \<noteq> CHR ''*'') (drop 2 s))"
    by (auto simp: bold_at_def Let_def split: if_splits)
  have "length rest \<le> length (dropWhile (\<lambda>c. c \<noteq> CHR ''*'') (drop 2 s))"
    unfolding r by simp
  also have "\<dots> \<le> length (drop 2 s)" by (rule length_dropWhile_le)
  also have "\<dots> < length s" using t by (cases s) auto
  finally show ?thesis .
qed

lemma find_bold_shorter: "find_bold s = Some (pre, inner, rest) \<Longrightarrow> length rest < length s"
proof (induction s arbitrary: pre)
  case Nil
  then show ?case by simp
next
  case (Cons c cs)
  show ?case
  proof (cases "bold_at (c # cs)")
    case (Some p)
    with Cons.prems have "bold_at (c # cs) = Some (inner, rest)"
      by (cases p) auto
    then show ?thesis by (rule bold_at_shorter)
  next
    case None
    with Cons.prems obtain b where "find_bold cs = Some (b, inner, rest)"
      by (auto split: option.splits)
    from Cons.IH [OF this] show ?thesis by simp
  qed
qed

text \<open>
  The loop of \<^verbatim>\<open>parseInlineFormatting\<close> over the matches of the bold pattern,
  followed by the text that remains after the last match.
\<close>

function inline_segments :: "string \<Rightarrow> inline_segment list" where
  "inline_segments s =
     (case find_bold s of
        None \<Rightarrow> (if s \<noteq> [] \<and> trim s \<noteq> [] then [plain_segment s] else [])
      | Some (pre, inner, rest) \<Rightarrow>
          (if pre \<noteq> [] \<and> trim pre \<noteq> [] then [plain_segment pre] else [])
            @ [bold_segment inner] @ inline_segments rest)"
  by pat_completeness auto
termination
  by (relation "measure length") (auto dest: find_bold_shorter)

definition parseInlineFormatting :: "string \<Rightarrow> inline_segment list" where
  "parseInlineFormatting s =
     (let segments = inline_segments s
      in if segments = [] \<and> trim s \<noteq> [] then [plain_segment s] else segments)"

text \<open>\<^verbatim>\<open>text.split(/\s+/).filter(word => word.length > 0)\<close>.\<close>

fun split_words :: "string \<Rightarrow> string \<Rightarrow> string list" where
  "split_words word [] = (if word = [] then [] else [word])"
| "split_words word (c # cs) =
     (if is_space c then (if word = [] then split_words [] cs else word # split_words [] cs)
      else split_words (word @ [c]) cs)"

definition segment_style :: "inline_segment \<Rightarrow> font_style" where
  "segment_style seg =
     (if seg_bold seg \<and> seg_italic seg then BoldItalic
      else if seg_bold seg then Bold
      else if seg_italic seg then Italic
      else Normal)"

record pen =
  currentX :: rat
  currentY :: rat
  drawn :: "draw list"

text \<open>The inner loop of \<^verbatim>\<open>renderFormattedText\<close> over the words of one segment.\<close>

fun render_words ::
  "metrics \<Rightarrow> nat \<Rightarrow> inline_segment \<Rightarrow> rat \<Rightarrow> rat \<Rightarrow> rat \<Rightarrow> pen \<Rightarrow> string list \<Rightarrow> pen" where
  "render_words m fontSize seg startX maxWidth lineHeight p [] = p"
| "render_words m fontSize seg startX maxWidth lineHeight p (word # rest) =
     (let style = segment_style seg;
          spaceAfter = (if rest \<noteq> [] then '' '' else []);
          wordWidth = getTextWidth m style fontSize (word @ spaceAfter);
          wrap = (currentX p + wordWidth > startX + maxWidth \<and> currentX p > startX);
          y = (if wrap then currentY p + lineHeight else currentY p);
          x = (if wrap then startX else currentX p);
          underline =
            (if seg_underline seg
             then [Line x (y + 1) (x + getTextWidth m style fontSize word) (y + 1)] else []);
          x' = x + getTextWidth m style fontSize word;
          x'' = (if rest \<noteq> [] then x' + getTextWidth m style fontSize '' '' else x')
      in render_words m fontSize seg startX maxWidth lineHeight
           \<lparr>currentX = x'', currentY = y,
            drawn = drawn p @ [Text style fontSize word x y] @ underline\<rparr> rest)"

fun render_segments ::
  "metrics \<Rightarrow> nat \<Rightarrow> rat \<Rightarrow> rat \<Rightarrow> rat \<Rightarrow> pen \<Rightarrow> inline_segment list \<Rightarrow> pen" where
  "render_segments m fontSize startX maxWidth lineHeight p [] = p"
| "render_segments m fontSize startX maxWidth lineHeight p (seg # segs) =
     (if seg_text seg = [] \<or> trim (seg_text seg) = []
      then render_segments m fontSize startX maxWidth lineHeight p segs
      else render_segments m fontSize startX maxWidth lineHeight
             (render_words m fontSize seg startX maxWidth lineHeight p
                (split_words [] (seg_text seg)))
             segs)"

text \<open>
  \<^verbatim>\<open>renderFormattedText\<close>: the operations drawn and the returned \<^verbatim>\<open>currentY\<close>.
  The font size is the one the caller set before the call.
\<close>

definition renderFormattedText ::
  "metrics \<Rightarrow> nat \<Rightarrow> inline_segment list \<Rightarrow> rat \<Rightarrow> rat \<Rightarrow> rat \<Rightarrow> rat \<Rightarrow> draw list \<times> rat" where
  "renderFormattedText m fontSize segments startX maxWidth yPosition lineHeight =
     (let p = render_segments m fontSize startX maxWidth lineHeight
                \<lparr>currentX = startX, currentY = yPosition, drawn = []\<rparr> segments
      in (drawn p, currentY p))"

definition lineHeight :: rat where
  "lineHeight = 15"

definition bottomMargin :: rat where
  "bottomMargin = 80"

text \<open>
  The page check at the head of each iteration of \<^verbatim>\<open>addFormattedContent\<close>: the
  operations it adds and the cursor the item starts from.
\<close>

definition page_check :: "rat \<Rightarrow> rat \<Rightarrow> rat \<Rightarrow> draw list \<times> rat" where
  "page_check margin pageHeight yPosition =
     (if yPosition > pageHeight - bottomMargin then ([AddPage], margin + 20) else ([], yPosition))"

text \<open>The \<^verbatim>\<open>switch\<close> on the item's type, from the cursor \<open>yPosition\<close>.\<close>

definition layout_item ::
  "metrics \<Rightarrow> rat \<Rightarrow> rat \<Rightarrow> rat \<Rightarrow> parsedContent \<Rightarrow> draw list \<times> rat" where
  "layout_item m margin contentWidth yPosition item =
     (case pc_type item of
        Header \<Rightarrow>
          (let y = yPosition + 15;
               fontSize = (case pc_fontSize item of None \<Rightarrow> 14 | Some n \<Rightarrow> if n = 0 then 14 else n);
               headerLines = splitTextToSize m fontSize (pc_content item) contentWidth
           in ([TextLines Bold fontSize headerLines margin y],
               y + (of_nat (length headerLines) * lineHeight) + 15))
      | Separator \<Rightarrow>
          (let y = yPosition + 8
           in ([Line margin y (margin + contentWidth) y], y + 20))
      | ListItem \<Rightarrow>
          (let listSegments = parseInlineFormatting (pc_content item)
           in (Bullet (margin + 10) yPosition
                 # fst (renderFormattedText m 11 listSegments (margin + 25) (contentWidth - 25)
                          yPosition lineHeight),
               yPosition + lineHeight + 3))
      | Paragraph \<Rightarrow>
          (let segments = parseInlineFormatting (pc_content item);
               (ops, newY) = renderFormattedText m 11 segments margin contentWidth yPosition
                               lineHeight
           in (ops, newY + 12)))"

fun addFormattedContent ::
  "metrics \<Rightarrow> parsedContent list \<Rightarrow> rat \<Rightarrow> rat \<Rightarrow> rat \<Rightarrow> rat \<Rightarrow> draw list \<times> rat" where
  "addFormattedContent m [] margin contentWidth startY pageHeight = ([], startY)"
| "addFormattedContent m (item # parsedContent) margin contentWidth startY pageHeight =
     (let (brk, y) = page_check margin pageHeight startY;
          (ops, y') = layout_item m margin contentWidth y item;
          (more, yEnd) = addFormattedContent m parsedContent margin contentWidth y' pageHeight
      in (brk @ ops @ more, yEnd))"

text \<open>Quantities the pagination property speaks about.\<close>

definition page_breaks :: "draw list \<Rightarrow> nat" where
  "page_breaks ops = length (filter (\<lambda>d. d = AddPage) ops)"

fun text_y :: "draw \<Rightarrow> rat option" where
  "text_y (Text style fontSize s x y) = Some y"
| "text_y (TextLines style fontSize ls x y) = Some y"
| "text_y (Bullet x y) = Some y"
| "text_y AddPage = None"
| "text_y (Line x1 y1 x2 y2) = None"

text \<open>
  \<open>within_limit limit ops\<close>: no text of \<open>ops\<close> is placed at a \<open>y\<close> beyond
  \<open>limit\<close>.
\<close>

definition within_limit :: "rat \<Rightarrow> draw list \<Rightarrow> bool" where
  "within_limit limit ops = list_all (\<lambda>d. case text_y d of None \<Rightarrow> True | Some y \<Rightarrow> y \<le> limit) ops"

text \<open>
  The height an item takes on an unbounded page (its advance of the cursor, which does
  not depend on where it starts) and the total over a token stream.
\<close>

definition item_height :: "metrics \<Rightarrow> rat \<Rightarrow> rat \<Rightarrow> parsedContent \<Rightarrow> rat" where
  "item_height m margin contentWidth item = snd (layout_item m margin contentWidth 0 item)"

definition total_height :: "metrics \<Rightarrow> rat \<Rightarrow> rat \<Rightarrow> parsedContent list \<Rightarrow> rat" where
  "total_height m margin contentWidth items =
     sum_list (map (item_height m margin contentWidth) items)"

text \<open>
  The same operation drawn \<open>d\<close> points further down the page.
\<close>

fun shift_draw :: "rat \<Rightarrow> draw \<Rightarrow> draw" where
  "shift_draw d AddPage = AddPage"
| "shift_draw d (Text style fontSize s x y) = Text style fontSize s x (y + d)"
| "shift_draw d (TextLines style fontSize ls x y) = TextLines style fontSize ls x (y + d)"
| "shift_draw d (Bullet x y) = Bullet x (y + d)"
| "shift_draw d (Line x1 y1 x2 y2) = Line x1 (y1 + d) x2 (y2 + d)"

text \<open>
  The block of lines that a header draws; words and bullets are the other texts.
\<close>

fun header_block :: "draw \<Rightarrow> bool" where
  "header_block (TextLines style fontSize ls x y) = True"
| "header_block d = False"

text \<open>
  An item all of whose text sits on the line it starts from: laid out from cursor
  \<open>0\<close> it places no text below \<open>0\<close>. A header (drawn 15 points below the
  cursor) and an item with a wrapped line are not of this kind.
\<close>

definition on_start_line :: "metrics \<Rightarrow> rat \<Rightarrow> rat \<Rightarrow> parsedContent \<Rightarrow> bool" where
  "on_start_line m margin contentWidth item =
     within_limit 0 (fst (layout_item m margin contentWidth 0 item))"

section \<open>A small database\<close>

text \<open>
  An administrator and two customers. The first customer owns transcript 1, its
  arrangement and the two documents generated for it; the second owns transcript 2
  only.
\<close>

definition example_admin :: user where
  "example_admin =
     \<lparr>user_id = 1, user_email = ''admin@example.com'', user_password = ''hash1'',
      user_name = ''Admin'', user_funeralHome = None, user_role = ''admin'',
      user_createdAt = 100, user_updatedAt = 100, user_billingPeriodStart = 100\<rparr>"

definition example_alice :: user where
  "example_alice =
     \<lparr>user_id = 2, user_email = ''alice@example.com'', user_password = ''hash2'',
      user_name = ''Alice'', user_funeralHome = Some ''Oak Chapel'', user_role = ''user'',
      user_createdAt = 200, user_updatedAt = 200, user_billingPeriodStart = 200\<rparr>"

definition example_bob :: user where
  "example_bob =
     \<lparr>user_id = 3, user_email = ''bob@example.com'', user_password = ''hash3'',
      user_name = ''Bob'', user_funeralHome = None, user_role = ''user'',
      user_createdAt = 300, user_updatedAt = 300, user_billingPeriodStart = 300\<rparr>"

definition example_transcript :: transcript where
  "example_transcript =
     \<lparr>transcript_id = 1, transcript_userId = 2, transcript_filename = ''meeting.txt'',
      transcript_content = ''The family met the director.'', transcript_fileSize = 28,
      transcript_uploadDate = 250, transcript_status = ''processed''\<rparr>"

definition example_transcript2 :: transcript where
  "example_transcript2 =
     \<lparr>transcript_id = 2, transcript_userId = 3, transcript_filename = ''call.txt'',
      transcript_content = ''A short call.'', transcript_fileSize = 13,
      transcript_uploadDate = 350, transcript_status = ''processed''\<rparr>"

definition example_arrangement :: arrangement where
  \<open>example_arrangement =
     \<lparr>arrangement_id = 1, arrangement_transcriptId = 1, arrangement_userId = 2,
      arrangement_approvalStatus = ''pending'', arrangement_approvedAt = None,
      arrangement_extractedData = Some ''{"arrangement":{}}''\<rparr>\<close>

definition example_contract :: document where
  "example_contract =
     \<lparr>document_id = 1, document_arrangementId = 1, document_type = ''contract'',
      document_title = ''Funeral Services Contract'', document_content = Some ''JVBERi0='',
      document_plainTextContent = Some ''Contract text'', document_status = ''generated'',
      document_version = 1, document_createdAt = 400, document_updatedAt = 400\<rparr>"

definition example_summary :: document where
  "example_summary =
     \<lparr>document_id = 2, document_arrangementId = 1, document_type = ''summary'',
      document_title = ''Arrangement Summary'', document_content = Some ''JVBERi1='',
      document_plainTextContent = Some ''Summary text'', document_status = ''generated'',
      document_version = 1, document_createdAt = 410, document_updatedAt = 410\<rparr>"

definition example_task :: funeralTask where
  "example_task =
     \<lparr>task_id = 1, task_arrangementId = 1, task_type = ''task'',
      task_title = ''Complete Funeral Arrangements'', task_description = Some ''Call the venue'',
      task_priority = ''high'', task_dueDate = Some 900, task_completed = False,
      task_createdAt = 420\<rparr>"

definition example_db :: db where
  "example_db =
     \<lparr>users = [example_admin, example_alice, example_bob],
      transcripts = [example_transcript, example_transcript2],
      arrangements = [example_arrangement],
      documents = [example_contract, example_summary],
      funeralTasks = [example_task],
      passwordResets = [],
      userUsageMetrics = [],
      userBillingPeriods = [],
      documents_seq = 3, funeralTasks_seq = 2, passwordResets_seq = 1,
      userUsageMetrics_seq = 1, userBillingPeriods_seq = 1\<rparr>"

definition admin_token :: auth_user where
  "admin_token = \<lparr>auth_userId = 1, auth_email = ''admin@example.com'', auth_role = ''admin''\<rparr>"

definition alice_token :: auth_user where
  "alice_token = \<lparr>auth_userId = 2, auth_email = ''alice@example.com'', auth_role = ''user''\<rparr>"

definition bob_token :: auth_user where
  "bob_token = \<lparr>auth_userId = 3, auth_email = ''bob@example.com'', auth_role = ''user''\<rparr>"

text \<open>The administrator makes the first customer a premium user.\<close>

definition role_request :: put_request where
  "role_request = \<lparr>req_path = [''api'', ''admin'', ''users'', ''2'', ''role''],
                    req_token = Verified admin_token, req_role = Some ''premium''\<rparr>"



text \<open>
  Layout examples on an A4 page in points, with the margin 50 of the source and the
  cursor 140 that \<^verbatim>\<open>addDocumentHeader\<close> returns when no name is printed. Every
  character is 6 points wide and no header needs a second line. The first stream has
  thirteen headers, two paragraphs and six more headers; the second has one header and
  one paragraph.
\<close>

definition example_metrics :: metrics where
  "example_metrics =
     \<lparr>getTextWidth = (\<lambda>style fontSize s. 6 * of_nat (length s)),
      splitTextToSize = (\<lambda>fontSize s width. [s])\<rparr>"

definition example_header :: parsedContent where
  "example_header = \<lparr>pc_type = Header, pc_level = Some 2, pc_content = ''Service'',
                      pc_fontSize = Some 16, pc_bold = True\<rparr>"

definition example_paragraph :: parsedContent where
  "example_paragraph = \<lparr>pc_type = Paragraph, pc_level = None, pc_content = ''Chapel'',
                         pc_fontSize = Some 11, pc_bold = False\<rparr>"

definition example_tokens :: "parsedContent list" where
  "example_tokens = replicate 13 example_header @ [example_paragraph, example_paragraph]
                      @ replicate 6 example_header"

definition example_short :: "parsedContent list" where
  "example_short = [example_header, example_paragraph]"

definition a4_height :: rat where
  "a4_height = 84189 / 100"

definition a4_contentWidth :: rat where
  "a4_contentWidth = 59528 / 100 - 2 * 50"

text \<open>
  Arrangement data as \<^verbatim>\<open>JSON.parse\<close> can return it: one whose service date is an
  object with a property named \<^verbatim>\<open>toString\<close>, and one of the declared shape.
\<close>

definition example_bad_date :: jsval where
  "example_bad_date =
     JObj [(''arrangement'',
            JObj [(''arrangements'',
                   JObj [(''service_date'', JObj [(''toString'', JNum ''1'')])])])]"

definition example_data :: jsval where
  "example_data =
     JObj [(''arrangement'',
            JObj [(''basic_information'',
                   JObj [(''deceased_name'',
                          JObj [(''first'', JStr ''Ada''), (''last'', JStr ''Byron'')])]),
                  (''arrangements'',
                   JObj [(''service_date'', JStr ''2025-01-09''),
                         (''service_time'', JStr ''10:00'')])])]"

section \<open>Facts about lists\<close>

lemma find_filter_neq:
  "find P (filter Q xs) = find (\<lambda>x. P x \<and> Q x) xs"
  by (induction xs) auto

lemma find_pred_cong:
  "(\<And>x. x \<in> set xs \<Longrightarrow> P x = Q x) \<Longrightarrow> find P xs = find Q xs"
  by (induction xs) auto

lemma filter_neq_length:
  "find (\<lambda>d. f d = i) ds \<noteq> None \<Longrightarrow> distinct (map f ds)
     \<Longrightarrow> Suc (length (filter (\<lambda>d. f d \<noteq> i) ds)) = length ds"
proof (induction ds)
  case Nil
  then show ?case by simp
next
  case (Cons d ds)
  show ?case
  proof (cases "f d = i")
    case True
    with Cons.prems(2) have "\<forall>x \<in> set ds. f x \<noteq> i" by (auto simp: image_iff)
    then have "filter (\<lambda>d. f d \<noteq> i) ds = ds" by (simp add: filter_id_conv)
    with True show ?thesis by simp
  next
    case False
    with Cons show ?thesis by simp
  qed
qed

lemma find_map_same_key:
  "(\<And>u. P (f u) = P u) \<Longrightarrow> find P (map f us) = map_option f (find P us)"
  by (induction us) auto

lemma find_Some_holds: "find P xs = Some x \<Longrightarrow> P x"
  by (induction xs) (auto split: if_splits)

section \<open>Properties of the document routes\<close>

text \<open>
  C8. Deleting document \<open>i\<close> through \<^verbatim>\<open>DELETE /api/documents/:id\<close> removes the rows
  whose id is \<open>i\<close> and keeps every other document row in place; the arrangements, the
  funeral tasks and every other table are unchanged. When \<open>i\<close> exists and ids are
  unique (primary key), exactly one row goes.
\<close>

theorem delete_document_frame:
  assumes "getDocumentById st i \<noteq> None" and "distinct (map document_id (documents st))"
  shows "documents (fst (delete_document_route st u i))
           = filter (\<lambda>d. document_id d \<noteq> i) (documents st)
       \<and> getDocumentById (fst (delete_document_route st u i)) i = None
       \<and> (\<forall>j. j \<noteq> i \<longrightarrow> getDocumentById (fst (delete_document_route st u i)) j
                            = getDocumentById st j)
       \<and> Suc (length (documents (fst (delete_document_route st u i))))
           = length (documents st)
       \<and> arrangements (fst (delete_document_route st u i)) = arrangements st
       \<and> funeralTasks (fst (delete_document_route st u i)) = funeralTasks st
       \<and> fst (delete_document_route st u i)
           = st\<lparr>documents := documents (fst (delete_document_route st u i))\<rparr>"
proof -
  let ?st' = "fst (delete_document_route st u i)"
  have docs: "documents ?st' = filter (\<lambda>d. document_id d \<noteq> i) (documents st)"
    by (simp add: delete_document_route_def deleteDocument_def)
  have gone: "getDocumentById ?st' i = None"
    by (simp add: getDocumentById_def docs find_filter_neq find_None_iff)
  have others: "\<forall>j. j \<noteq> i \<longrightarrow> getDocumentById ?st' j = getDocumentById st j"
  proof (intro allI impI)
    fix j assume "j \<noteq> i"
    then have "find (\<lambda>d. document_id d = j \<and> document_id d \<noteq> i) (documents st)
                 = find (\<lambda>d. document_id d = j) (documents st)"
      by (intro find_pred_cong) auto
    then show "getDocumentById ?st' j = getDocumentById st j"
      by (simp add: getDocumentById_def docs find_filter_neq)
  qed
  have len: "Suc (length (documents ?st')) = length (documents st)"
    using filter_neq_length [of document_id i "documents st"] assms
    by (simp add: docs getDocumentById_def)
  have rest: "arrangements ?st' = arrangements st" "funeralTasks ?st' = funeralTasks st"
    "?st' = st\<lparr>documents := documents ?st'\<rparr>"
    by (simp_all add: delete_document_route_def deleteDocument_def)
  from docs gone others len rest show ?thesis by blast
qed

theorem delete_document_frame_witness:
  "getDocumentById example_db 1 \<noteq> None
   \<and> distinct (map document_id (documents example_db))
   \<and> documents (fst (delete_document_route example_db alice_token 1)) = [example_summary]
   \<and> arrangements (fst (delete_document_route example_db alice_token 1)) = [example_arrangement]
   \<and> funeralTasks (fst (delete_document_route example_db alice_token 1)) = [example_task]"
proof -
  have h: "getDocumentById example_db 1 \<noteq> None"
    by (simp add: getDocumentById_def example_db_def example_contract_def)
  have d: "distinct (map document_id (documents example_db))"
    by (simp add: example_db_def example_contract_def example_summary_def)
  have f: "filter (\<lambda>d. document_id d \<noteq> 1) (documents example_db) = [example_summary]"
    by (simp add: example_db_def example_contract_def example_summary_def)
  have a: "arrangements example_db = [example_arrangement]"
    and t: "funeralTasks example_db = [example_task]"
    by (simp_all add: example_db_def)
  from delete_document_frame [OF h d, of alice_token] f a t
  have "documents (fst (delete_document_route example_db alice_token 1)) = [example_summary]"
    and "arrangements (fst (delete_document_route example_db alice_token 1))
           = [example_arrangement]"
    and "funeralTasks (fst (delete_document_route example_db alice_token 1)) = [example_task]"
    by simp_all
  with h d show ?thesis by (intro conjI)
qed

text \<open>
  C10. The download and the delete endpoint look a document up by id only: for every
  authenticated user \<open>u\<close> and every existing document, whoever owns the transcript
  of its arrangement, the download answers with the document's decoded content and the
  delete removes the row. The witness has the second customer read and delete a
  document of the first.
\<close>

theorem document_routes_ignore_ownership:
  assumes "getDocumentById st i = Some d"
  shows "download_document_route base64 st u i
           = json (Attachment (document_title d @ ''.pdf'')
                     (base64 (case document_content d of None \<Rightarrow> [] | Some c \<Rightarrow> c)))
       \<and> snd (delete_document_route st u i) = json (Message ''Document deleted successfully'')
       \<and> getDocumentById (fst (delete_document_route st u i)) i = None"
  using assms
  by (simp add: download_document_route_def delete_document_route_def deleteDocument_def
        getDocumentById_def find_filter_neq find_None_iff)

theorem document_routes_ignore_ownership_witness:
  "getDocumentById example_db 1 = Some example_contract
   \<and> getTranscriptById example_db 1 (auth_userId bob_token) = None
   \<and> download_document_route id example_db bob_token 1
       = json (Attachment ''Funeral Services Contract.pdf'' ''JVBERi0='')
   \<and> map document_id (documents (fst (delete_document_route example_db bob_token 1))) = [2]"
proof -
  have h: "getDocumentById example_db 1 = Some example_contract"
    by (simp add: getDocumentById_def example_db_def example_contract_def)
  have t: "getTranscriptById example_db 1 (auth_userId bob_token) = None"
    by (simp add: getTranscriptById_def example_db_def example_transcript_def
          example_transcript2_def bob_token_def)
  have d: "map document_id (documents (fst (delete_document_route example_db bob_token 1))) = [2]"
    by (simp add: delete_document_route_def deleteDocument_def example_db_def
          example_contract_def example_summary_def)
  from document_routes_ignore_ownership [OF h, of id bob_token] h t d show ?thesis
    by (simp add: example_contract_def)
qed

section \<open>Properties of the password reset request\<close>

text \<open>
  C7. For a request with a non-empty email the response of
  \<^verbatim>\<open>POST /api/auth/forgot-password\<close> is the generic success message with status
  200, and it is the same for any two databases, tokens, clocks and mail outcomes: whether
  an account with that email exists cannot be read off the response.
\<close>

theorem forgot_password_generic_response:
  assumes "email \<noteq> []"
  shows "snd (forgot_password resetToken now emailSent st (Some email))
           = json (Message
               ''If an account with that email exists, we've sent a password reset link.'')
       \<and> snd (forgot_password resetToken now emailSent st (Some email))
           = snd (forgot_password resetToken' now' emailSent' st' (Some email))"
  using assms by (simp add: forgot_password_def Let_def)

theorem forgot_password_generic_response_witness:
  "''alice@example.com'' \<noteq> []
   \<and> getUserByEmail example_db ''alice@example.com'' = Some example_alice
   \<and> getUserByEmail (example_db\<lparr>users := []\<rparr>) ''alice@example.com'' = None
   \<and> snd (forgot_password ''c0ffee'' 1000 True example_db (Some ''alice@example.com''))
       = snd (forgot_password ''c0ffee'' 1000 False (example_db\<lparr>users := []\<rparr>)
                (Some ''alice@example.com''))
   \<and> length (passwordResets
         (fst (forgot_password ''c0ffee'' 1000 True example_db (Some ''alice@example.com'')))) = 1"
proof -
  have e: "''alice@example.com'' \<noteq> []" by simp
  have a: "getUserByEmail example_db ''alice@example.com'' = Some example_alice"
    by (simp add: getUserByEmail_def example_db_def example_admin_def example_alice_def)
  have b: "getUserByEmail (example_db\<lparr>users := []\<rparr>) ''alice@example.com'' = None"
    by (simp add: getUserByEmail_def)
  have c: "length (passwordResets
         (fst (forgot_password ''c0ffee'' 1000 True example_db (Some ''alice@example.com'')))) = 1"
    using a by (simp add: forgot_password_def createPasswordReset_def example_db_def)
  have r: "snd (forgot_password ''c0ffee'' 1000 True example_db (Some ''alice@example.com''))
       = snd (forgot_password ''c0ffee'' 1000 False (example_db\<lparr>users := []\<rparr>)
                (Some ''alice@example.com''))"
    using forgot_password_generic_response [OF e, of "''c0ffee''" 1000 True example_db
       "''c0ffee''" 1000 False "example_db\<lparr>users := []\<rparr>"]
    by (rule conjunct2)
  show ?thesis by (intro conjI e a b r c)
qed

section \<open>Properties of the admin role change\<close>

lemma match_admin_role_path:
  "i \<noteq> [] \<Longrightarrow>
   first_match put_routes [''api'', ''admin'', ''users'', i, ''role'']
     = Some (AdminUsersIdRole, [(''id'', i)])"
  by (simp add: put_routes_def)

lemma updateUserRole_billing:
  "updateUserRole now st i r = (st', res) \<Longrightarrow>
     userBillingPeriods st' = userBillingPeriods st
   \<and> map user_billingPeriodStart (users st') = map user_billingPeriodStart (users st)"
  by (auto simp: updateUserRole_def Let_def)

lemma put_admin_users_id_role_billing:
  "put_admin_users_id_role now st u i r = (st', resp) \<Longrightarrow>
     userBillingPeriods st' = userBillingPeriods st
   \<and> map user_billingPeriodStart (users st') = map user_billingPeriodStart (users st)"
  unfolding put_admin_users_id_role_def
  by (auto split: option.splits if_splits prod.splits dest: updateUserRole_billing)

text \<open>
  C5 says that every admin role change resets the target user's billing window. The
  code does otherwise: both role routes are registered for the same path, Express runs
  the one registered first (line 316), and that handler only sets the role and the update
  time. For every \<^verbatim>\<open>PUT /api/admin/users/<id>/role\<close> request, whatever the token, the
  id and the role, the handler that runs is the first one, no user's billing period start
  changes and no billing-period row is inserted. The handler registered at line 1272,
  which does reset (\<open>reset_handler_resets_billing\<close>), is never reached. The witness
  is the request that makes the first customer a premium user.
\<close>

theorem role_change_never_resets_billing:
  assumes "i \<noteq> []"
    and "handle_put now st \<lparr>req_path = [''api'', ''admin'', ''users'', i, ''role''],
                             req_token = token, req_role = role\<rparr> = Some (st', resp)"
  shows "userBillingPeriods st' = userBillingPeriods st
       \<and> map user_billingPeriodStart (users st') = map user_billingPeriodStart (users st)
       \<and> (st', resp)
           = admin_only st token (\<lambda>u. put_admin_users_id_role now st u (parseInt i) role)"
proof -
  from assms have eq: "(st', resp)
      = admin_only st token (\<lambda>u. put_admin_users_id_role now st u (parseInt i) role)"
    by (simp add: handle_put_def match_admin_role_path param_int_def)
  then have "userBillingPeriods st' = userBillingPeriods st
       \<and> map user_billingPeriodStart (users st') = map user_billingPeriodStart (users st)"
    unfolding admin_only_def
    by (auto split: token_check.splits if_splits dest: put_admin_users_id_role_billing [OF sym])
  with eq show ?thesis by simp
qed


lemma reset_handler_resets_billing:
  assumes "find (\<lambda>u. int (user_id u) = i) (users st) = Some u0" and "role \<noteq> []"
  shows "\<exists>st' u'. put_admin_users_userId_role now st req_user (Some i) (Some role)
                    = (st', json (RoleResetBody ''User role updated and billing period reset'' u'))
           \<and> user_role u' = role \<and> user_billingPeriodStart u' = now
           \<and> length (userBillingPeriods st') = Suc (length (userBillingPeriods st))
           \<and> period_userId (last (userBillingPeriods st')) = user_id u0
           \<and> period_periodStart (last (userBillingPeriods st')) = now"
proof -
  define f :: "user \<Rightarrow> user" where "f = (\<lambda>u. if int (user_id u) = i
                then u\<lparr>user_role := role, user_billingPeriodStart := now, user_updatedAt := now\<rparr>
                else u)"
  have k: "int (user_id u0) = i"
    using assms(1) by (rule find_Some_holds)
  have "find (\<lambda>u. int (user_id u) = i) (map f (users st))
          = map_option f (find (\<lambda>u. int (user_id u) = i) (users st))"
    by (rule find_map_same_key) (simp add: f_def)
  with assms(1) have fm: "find (\<lambda>u. int (user_id u) = i) (map f (users st)) = Some (f u0)"
    by simp
  have fu: "f u0 = u0\<lparr>user_role := role, user_billingPeriodStart := now, user_updatedAt := now\<rparr>"
    using k by (simp add: f_def)
  have "updateUserRoleAndResetBilling now st i role
          = (createBillingPeriod now (st\<lparr>users := map f (users st)\<rparr>) (user_id (f u0)) now role,
             Inr (f u0))"
    using fm unfolding updateUserRoleAndResetBilling_def Let_def f_def [symmetric]
    by simp
  then show ?thesis
    using assms(2) fu
    by (fastforce simp add: put_admin_users_userId_role_def createBillingPeriod_def)
qed

theorem role_change_never_resets_billing_witness:
  "''2'' \<noteq> []
   \<and> handle_put 5000 example_db role_request \<noteq> None
   \<and> map user_role (users (fst (the (handle_put 5000 example_db role_request))))
       = [''admin'', ''premium'', ''user'']
   \<and> status (snd (the (handle_put 5000 example_db role_request))) = 200
   \<and> map user_billingPeriodStart (users (fst (the (handle_put 5000 example_db role_request))))
       = [100, 200, 300]
   \<and> userBillingPeriods (fst (the (handle_put 5000 example_db role_request))) = []"
proof -
  have i: "''2'' \<noteq> []" by simp
  have p: "parseInt ''2'' = Some 2" by code_simp
  obtain st' resp where h: "handle_put 5000 example_db role_request = Some (st', resp)"
    and r: "map user_role (users st') = [''admin'', ''premium'', ''user'']"
    and s: "status resp = 200"
    by (simp add: handle_put_def role_request_def match_admin_role_path param_int_def p
          admin_only_def admin_token_def put_admin_users_id_role_def updateUserRole_def
          example_db_def example_admin_def example_alice_def example_bob_def json_def)
  from role_change_never_resets_billing [OF i h [unfolded role_request_def]]
  have b: "userBillingPeriods st' = []"
    and c: "map user_billingPeriodStart (users st') = [100, 200, 300]"
    by (simp_all add: example_db_def example_admin_def example_alice_def example_bob_def)
  from h r s b c i show ?thesis by simp
qed

section \<open>Properties of the metric reconciliation\<close>

lemma reconcile_users_outcome:
  "reconcile_users s us
     = (s, if us = [] then None else Some (ReferenceError ''db is not defined''))"
  by (cases us) (simp_all add: reconcile_user_def)

lemma getAllUsers_empty: "getAllUsers st = [] \<longleftrightarrow> users st = []"
proof -
  have "length (getAllUsers st) = length (users st)"
    by (simp add: getAllUsers_def)
  then show ?thesis by (metis length_0_conv)
qed

lemma reconcile_metrics_route_outcome:
  "reconcile_metrics_route st
     = (st, if users st = []
            then json (ReconcileBody ''Historical usage metrics reconciled successfully'' 0 0)
            else status_json 500 (Message ''db is not defined''))"
  by (simp add: reconcile_metrics_route_def reconcile_users_outcome getAllUsers_empty)

text \<open>
  C6. The reconcile operation is idempotent. For every database, a run of
  \<^verbatim>\<open>POST /api/admin/reconcile-metrics\<close> right after a previous run leaves the database
  of the previous run as it is, so it inserts no usage-metric row, and it gives the same
  response. The handler reaches this in a degenerate way: a run inserts no row at all,
  which is within every count of processed transcripts and documents. With no user it
  answers 200 with both counters 0; with a user, the first iteration throws before any
  insert and the answer is 500 with the message of the ReferenceError.
\<close>

theorem reconcile_metrics_idempotent:
  "fst (reconcile_metrics_route (fst (reconcile_metrics_route st)))
     = fst (reconcile_metrics_route st)
   \<and> userUsageMetrics (fst (reconcile_metrics_route (fst (reconcile_metrics_route st))))
     = userUsageMetrics (fst (reconcile_metrics_route st))
   \<and> snd (reconcile_metrics_route (fst (reconcile_metrics_route st)))
     = snd (reconcile_metrics_route st)
   \<and> userUsageMetrics (fst (reconcile_metrics_route st)) = userUsageMetrics st
   \<and> snd (reconcile_metrics_route st)
     = (if users st = []
        then json (ReconcileBody ''Historical usage metrics reconciled successfully'' 0 0)
        else status_json 500 (Message ''db is not defined''))"
  by (simp add: reconcile_metrics_route_outcome)

text \<open>
  The example database has three users, two processed transcripts and two documents, and
  no usage-metric row: both runs answer 500 and the table stays empty.
\<close>

theorem reconcile_metrics_idempotent_witness:
  "snd (reconcile_metrics_route example_db) = status_json 500 (Message ''db is not defined'')
   \<and> snd (reconcile_metrics_route (fst (reconcile_metrics_route example_db)))
       = status_json 500 (Message ''db is not defined'')
   \<and> userUsageMetrics (fst (reconcile_metrics_route example_db)) = []
   \<and> userUsageMetrics (fst (reconcile_metrics_route (fst (reconcile_metrics_route example_db))))
       = []"
proof -
  have u: "users example_db \<noteq> []" by (simp add: example_db_def)
  have m: "userUsageMetrics example_db = []" by (simp add: example_db_def)
  from reconcile_metrics_idempotent [of example_db] u m show ?thesis by simp
qed

section \<open>Properties of the approval workflow\<close>

























section \<open>Properties of the header parsing\<close>

text \<open>
  In the direct-draw parser a line that starts with two hash signs never becomes a
  level-1 header: the level-1 test excludes it.
\<close>

lemma double_hash_not_level_1:
  "startsWith line ''##'' \<Longrightarrow> pc_level (parse_line line) \<noteq> Some 1"
  by (simp add: parse_line_def)

text \<open>
  C4. The two backends on the two lines. With a space after the hashes both give a
  level-2 header with text \<open>Header\<close>. Without the space the HTML backend still gives
  the level-2 heading, but the direct-draw parser requires white space after the
  hashes and returns the whole line \<open>##Header\<close> as an ordinary paragraph.
\<close>

theorem header_without_space_is_paragraph:
  "parseMarkdownContent ''## Header''
     = [\<lparr>pc_type = Header, pc_level = Some 2, pc_content = ''Header'',
         pc_fontSize = Some 16, pc_bold = True\<rparr>]
   \<and> parseMarkdownContent ''##Header''
     = [\<lparr>pc_type = Paragraph, pc_level = None, pc_content = ''##Header'',
         pc_fontSize = Some 11, pc_bold = False\<rparr>]
   \<and> markdownToHTML_headers ''## Header'' = ''<h2>Header</h2>''
   \<and> markdownToHTML_headers ''##Header'' = ''<h2>Header</h2>''"
  by code_simp

section \<open>Properties of the pagination\<close>

lemma page_breaks_append: "page_breaks (a @ b) = page_breaks a + page_breaks b"
  by (simp add: page_breaks_def)

lemma within_limit_append:
  "within_limit l (a @ b) = (within_limit l a \<and> within_limit l b)"
  by (simp add: within_limit_def)

lemma render_words_shift:
  "render_words m fs seg sx mw lh
     \<lparr>currentX = x, currentY = y + d, drawn = map (shift_draw d) ops\<rparr> ws
   = (let p = render_words m fs seg sx mw lh \<lparr>currentX = x, currentY = y, drawn = ops\<rparr> ws
      in \<lparr>currentX = currentX p, currentY = currentY p + d,
          drawn = map (shift_draw d) (drawn p)\<rparr>)"
proof (induction ws arbitrary: x y ops)
  case Nil
  then show ?case by simp
next
  case (Cons w ws)
  define style where "style = segment_style seg"
  define wrap where
    "wrap \<longleftrightarrow> x + getTextWidth m style fs (w @ (if ws \<noteq> [] then '' '' else [])) > sx + mw
               \<and> x > sx"
  define y1 where "y1 = (if wrap then y + lh else y)"
  define x1 where "x1 = (if wrap then sx else x)"
  define underline where
    "underline = (if seg_underline seg
                  then [Line x1 (y1 + 1) (x1 + getTextWidth m style fs w) (y1 + 1)] else [])"
  define x2 where "x2 = x1 + getTextWidth m style fs w"
  define x3 where "x3 = (if ws \<noteq> [] then x2 + getTextWidth m style fs '' '' else x2)"
  define ops1 where "ops1 = ops @ [Text style fs w x1 y1] @ underline"
  have a: "render_words m fs seg sx mw lh \<lparr>currentX = x, currentY = y, drawn = ops\<rparr> (w # ws)
           = render_words m fs seg sx mw lh \<lparr>currentX = x3, currentY = y1, drawn = ops1\<rparr> ws"
    by (simp add: Let_def style_def wrap_def y1_def x1_def underline_def x2_def x3_def ops1_def)
  have b: "render_words m fs seg sx mw lh
             \<lparr>currentX = x, currentY = y + d, drawn = map (shift_draw d) ops\<rparr> (w # ws)
           = render_words m fs seg sx mw lh
               \<lparr>currentX = x3, currentY = y1 + d, drawn = map (shift_draw d) ops1\<rparr> ws"
    by (simp add: Let_def style_def wrap_def y1_def x1_def underline_def x2_def x3_def ops1_def
          add.commute add.left_commute)
  show ?case unfolding a b by (rule Cons.IH)
qed

lemma render_segments_shift:
  "render_segments m fs sx mw lh
     \<lparr>currentX = x, currentY = y + d, drawn = map (shift_draw d) ops\<rparr> segs
   = (let p = render_segments m fs sx mw lh \<lparr>currentX = x, currentY = y, drawn = ops\<rparr> segs
      in \<lparr>currentX = currentX p, currentY = currentY p + d,
          drawn = map (shift_draw d) (drawn p)\<rparr>)"
proof (induction segs arbitrary: x y ops)
  case Nil
  then show ?case by simp
next
  case (Cons seg segs)
  show ?case
  proof (cases "seg_text seg = [] \<or> trim (seg_text seg) = []")
    case True
    then show ?thesis using Cons.IH by auto
  next
    case False
    obtain x1 y1 ops1 where
      p: "render_words m fs seg sx mw lh \<lparr>currentX = x, currentY = y, drawn = ops\<rparr>
            (split_words [] (seg_text seg)) = \<lparr>currentX = x1, currentY = y1, drawn = ops1\<rparr>"
      by (cases "render_words m fs seg sx mw lh \<lparr>currentX = x, currentY = y, drawn = ops\<rparr>
            (split_words [] (seg_text seg))") auto
    have q: "render_words m fs seg sx mw lh
               \<lparr>currentX = x, currentY = y + d, drawn = map (shift_draw d) ops\<rparr>
               (split_words [] (seg_text seg))
             = \<lparr>currentX = x1, currentY = y1 + d, drawn = map (shift_draw d) ops1\<rparr>"
      by (simp add: render_words_shift p)
    from False show ?thesis
      by (simp add: p q Cons.IH)
  qed
qed

lemma renderFormattedText_shift:
  "renderFormattedText m fs segs sx mw y lh
     = (map (shift_draw y) (fst (renderFormattedText m fs segs sx mw 0 lh)),
        snd (renderFormattedText m fs segs sx mw 0 lh) + y)"
  using render_segments_shift [of m fs sx mw lh sx 0 y "[]" segs]
  by (simp add: renderFormattedText_def Let_def)

lemma layout_item_shift:
  "layout_item m margin W y item
     = (map (shift_draw y) (fst (layout_item m margin W 0 item)),
        y + item_height m margin W item)"
proof (cases "pc_type item")
  case Header
  then show ?thesis by (simp add: layout_item_def item_height_def Let_def)
next
  case Paragraph
  then show ?thesis
    by (simp add: layout_item_def item_height_def Let_def split_beta
          renderFormattedText_shift [of _ _ _ _ _ y])
next
  case ListItem
  then show ?thesis
    by (simp add: layout_item_def item_height_def Let_def
          renderFormattedText_shift [of _ _ _ _ _ y])
next
  case Separator
  then show ?thesis by (simp add: layout_item_def item_height_def Let_def)
qed


lemma render_words_page_breaks:
  "page_breaks (drawn (render_words m fs seg sx mw lh p ws)) = page_breaks (drawn p)"
proof (induction ws arbitrary: p)
  case Nil
  then show ?case by simp
next
  case (Cons w ws)
  show ?case
    by (simp add: Let_def Cons.IH) (simp add: page_breaks_def)
qed

lemma render_segments_page_breaks:
  "page_breaks (drawn (render_segments m fs sx mw lh p segs)) = page_breaks (drawn p)"
  by (induction segs arbitrary: p) (simp_all add: render_words_page_breaks)

lemma render_words_descends:
  "0 \<le> lh \<Longrightarrow> currentY p \<le> currentY (render_words m fs seg sx mw lh p ws)"
proof (induction ws arbitrary: p)
  case Nil
  then show ?case by simp
next
  case (Cons w ws)
  show ?case
    unfolding render_words.simps Let_def
    by (rule order_trans [OF _ Cons.IH [OF Cons.prems]]) (use Cons.prems in simp)
qed

lemma render_segments_descends:
  "0 \<le> lh \<Longrightarrow> currentY p \<le> currentY (render_segments m fs sx mw lh p segs)"
proof (induction segs arbitrary: p)
  case Nil
  then show ?case by simp
next
  case (Cons seg segs)
  show ?case
  proof (cases "seg_text seg = [] \<or> trim (seg_text seg) = []")
    case True
    then show ?thesis using Cons.IH [OF Cons.prems] by auto
  next
    case False
    have "currentY p \<le> currentY (render_words m fs seg sx mw lh p (split_words [] (seg_text seg)))"
      by (rule render_words_descends [OF Cons.prems])
    also have "\<dots> \<le> currentY (render_segments m fs sx mw lh
                 (render_words m fs seg sx mw lh p (split_words [] (seg_text seg))) segs)"
      by (rule Cons.IH [OF Cons.prems])
    finally show ?thesis using False by simp
  qed
qed

lemma layout_item_page_breaks:
  "page_breaks (fst (layout_item m margin W y item)) = 0"
proof (cases "pc_type item")
  case Header
  then show ?thesis by (simp add: layout_item_def Let_def page_breaks_def)
next
  case Paragraph
  then show ?thesis
    by (simp add: layout_item_def Let_def split_beta renderFormattedText_def
          render_segments_page_breaks) (simp add: page_breaks_def)
next
  case ListItem
  then show ?thesis
    using render_segments_page_breaks
      [of m 11 "margin + 25" "W - 25" lineHeight
          "\<lparr>currentX = margin + 25, currentY = y, drawn = []\<rparr>"
          "parseInlineFormatting (pc_content item)"]
    by (simp add: layout_item_def Let_def renderFormattedText_def page_breaks_def)
next
  case Separator
  then show ?thesis by (simp add: layout_item_def Let_def page_breaks_def)
qed

lemma item_height_nonneg: "0 \<le> item_height m margin W item"
proof (cases "pc_type item")
  case Header
  then show ?thesis by (simp add: item_height_def layout_item_def Let_def lineHeight_def)
next
  case Paragraph
  have "0 \<le> currentY (render_segments m 11 margin W lineHeight
                 \<lparr>currentX = margin, currentY = 0, drawn = []\<rparr>
                 (parseInlineFormatting (pc_content item)))"
    using render_segments_descends [of lineHeight "\<lparr>currentX = margin, currentY = 0, drawn = []\<rparr>"]
    by (simp add: lineHeight_def)
  with Paragraph show ?thesis
    by (simp add: item_height_def layout_item_def Let_def split_beta renderFormattedText_def)
next
  case ListItem
  then show ?thesis by (simp add: item_height_def layout_item_def Let_def lineHeight_def)
next
  case Separator
  then show ?thesis by (simp add: item_height_def layout_item_def Let_def)
qed

lemma total_height_nonneg: "0 \<le> total_height m margin W items"
  unfolding total_height_def
  by (induction items) (simp_all add: item_height_nonneg)

lemma within_limit_shift:
  "within_limit 0 ops \<Longrightarrow> y \<le> limit \<Longrightarrow> within_limit limit (map (shift_draw y) ops)"
proof (induction ops)
  case Nil
  then show ?case by (simp add: within_limit_def)
next
  case (Cons d ops)
  then show ?case
    by (cases d) (auto simp: within_limit_def)
qed

text \<open>One iteration of the loop, with the item's advance made explicit.\<close>

lemma addFormattedContent_Cons:
  "addFormattedContent m (item # items) margin W y H
     = (let y0 = (if y > H - bottomMargin then margin + 20 else y);
            rest = addFormattedContent m items margin W (y0 + item_height m margin W item) H
        in ((if y > H - bottomMargin then [AddPage] else [])
              @ map (shift_draw y0) (fst (layout_item m margin W 0 item)) @ fst rest,
            snd rest))"
proof (cases "y > H - bottomMargin")
  case True
  with layout_item_shift [of m margin W "margin + 20" item] show ?thesis
    by (simp add: page_check_def Let_def split_beta)
next
  case False
  with layout_item_shift [of m margin W y item] show ?thesis
    by (simp add: page_check_def Let_def split_beta)
qed


lemma page_breaks_shift: "page_breaks (map (shift_draw d) ops) = page_breaks ops"
proof (induction ops)
  case Nil
  then show ?case by simp
next
  case (Cons a ops)
  then show ?case by (cases a) (simp_all add: page_breaks_def)
qed

lemma page_breaks_Cons:
  "page_breaks (fst (addFormattedContent m (item # items) margin W y H))
     = (if y > H - bottomMargin
        then Suc (page_breaks (fst (addFormattedContent m items margin W
                     (margin + 20 + item_height m margin W item) H)))
        else page_breaks (fst (addFormattedContent m items margin W
                     (y + item_height m margin W item) H)))"
  unfolding addFormattedContent_Cons Let_def
  by (simp add: page_breaks_append page_breaks_shift layout_item_page_breaks)
     (simp add: page_breaks_def)

lemma page_breaks_le_tokens:
  "page_breaks (fst (addFormattedContent m items margin W y H)) \<le> length items"
proof (induction items arbitrary: y)
  case Nil
  then show ?case by (simp add: page_breaks_def)
next
  case (Cons item items)
  show ?case
    unfolding page_breaks_Cons
    using Cons.IH [of "margin + 20 + item_height m margin W item"]
      Cons.IH [of "y + item_height m margin W item"]
    by simp
qed

lemma page_breaks_bound:
  "0 < page_breaks (fst (addFormattedContent m items margin W y H)) \<Longrightarrow>
     (of_nat (page_breaks (fst (addFormattedContent m items margin W y H))) - 1)
        * (H - bottomMargin - (margin + 20))
       < y + total_height m margin W items - (H - bottomMargin)"
proof (induction items arbitrary: y)
  case Nil
  then show ?case by (simp add: page_breaks_def)
next
  case (Cons item items)
  define h where "h = item_height m margin W item"
  define T where "T = total_height m margin W items"
  define L where "L = H - bottomMargin"
  define U where "U = L - (margin + 20)"
  have h: "0 \<le> h" unfolding h_def by (rule item_height_nonneg)
  have T: "0 \<le> T" unfolding T_def by (rule total_height_nonneg)
  have tot: "total_height m margin W (item # items) = h + T"
    by (simp add: total_height_def h_def T_def)
  show ?case
  proof (cases "y > L")
    case True
    define b where "b = page_breaks (fst (addFormattedContent m items margin W
                           (margin + 20 + h) H))"
    have eq: "page_breaks (fst (addFormattedContent m (item # items) margin W y H)) = Suc b"
      using True unfolding page_breaks_Cons b_def h_def L_def by simp
    have "of_nat b * U < y + (h + T) - L"
    proof (cases "b = 0")
      case True
      with \<open>y > L\<close> h T show ?thesis by simp
    next
      case False
      then have "(of_nat b - 1) * U < margin + 20 + h + T - L"
        using Cons.IH [of "margin + 20 + h"]
        unfolding b_def h_def T_def L_def U_def by simp
      then have "of_nat b * U < margin + 20 + h + T - L + U"
        by (simp add: algebra_simps)
      also have "\<dots> = h + T" by (simp add: U_def)
      also have "\<dots> < y + (h + T) - L" using \<open>y > L\<close> by simp
      finally show ?thesis .
    qed
    then show ?thesis
      unfolding eq tot by (simp add: U_def L_def)
  next
    case False
    have eq: "page_breaks (fst (addFormattedContent m (item # items) margin W y H))
                = page_breaks (fst (addFormattedContent m items margin W (y + h) H))"
      using False unfolding page_breaks_Cons h_def L_def by simp
    from Cons.prems have "0 < page_breaks (fst (addFormattedContent m items margin W (y + h) H))"
      unfolding eq .
    from Cons.IH [OF this] show ?thesis
      unfolding eq tot by (simp add: T_def algebra_simps)
  qed
qed

lemma within_limit_shift_slack:
  "within_limit e ops \<Longrightarrow> y \<le> limit \<Longrightarrow> within_limit (limit + e) (map (shift_draw y) ops)"
proof (induction ops)
  case Nil
  then show ?case by (simp add: within_limit_def)
next
  case (Cons d ops)
  then show ?case
    by (cases d) (auto simp: within_limit_def)
qed

lemma within_limit_filter: "within_limit l ops \<Longrightarrow> within_limit l (filter P ops)"
  by (induction ops) (auto simp: within_limit_def)

lemma within_limit_mono: "within_limit a ops \<Longrightarrow> a \<le> b \<Longrightarrow> within_limit b ops"
proof (induction ops)
  case Nil
  then show ?case by (simp add: within_limit_def)
next
  case (Cons d ops)
  then show ?case
    by (cases d) (auto simp: within_limit_def)
qed

lemma header_block_shift: "header_block (shift_draw y d) = header_block d"
  by (cases d) simp_all

lemma header_item_ops:
  "pc_type item = Header \<Longrightarrow>
     \<exists>fs ls. fst (layout_item m margin W 0 item) = [TextLines Bold fs ls margin 15]"
  by (simp add: layout_item_def Let_def)

lemma header_within_15:
  "pc_type item = Header \<Longrightarrow> within_limit 15 (fst (layout_item m margin W 0 item))"
  using header_item_ops [of item m margin W] by (auto simp: within_limit_def)

text \<open>Every text is at most the slack \<open>e\<close> of its token beyond the limit.\<close>

lemma slack_within_limit:
  assumes "margin + 20 \<le> H - bottomMargin"
    and "list_all (\<lambda>item. within_limit e (fst (layout_item m margin W 0 item))) items"
  shows "within_limit (H - bottomMargin + e) (fst (addFormattedContent m items margin W y H))"
  using assms(2)
proof (induction items arbitrary: y)
  case Nil
  then show ?case by (simp add: within_limit_def)
next
  case (Cons item items)
  from Cons.prems have r: "list_all (\<lambda>item. within_limit e (fst (layout_item m margin W 0 item))) items"
    and i: "within_limit e (fst (layout_item m margin W 0 item))"
    by simp_all
  define y0 where "y0 = (if y > H - bottomMargin then margin + 20 else y)"
  have "y0 \<le> H - bottomMargin" using assms(1) by (simp add: y0_def)
  with i have a: "within_limit (H - bottomMargin + e)
                    (map (shift_draw y0) (fst (layout_item m margin W 0 item)))"
    by (rule within_limit_shift_slack)
  have b: "within_limit (H - bottomMargin + e)
             (fst (addFormattedContent m items margin W (y0 + item_height m margin W item) H))"
    by (rule Cons.IH [OF r])
  have c: "within_limit (H - bottomMargin + e) (if y > H - bottomMargin then [AddPage] else [])"
    by (simp add: within_limit_def)
  from a b c show ?case
    unfolding addFormattedContent_Cons Let_def y0_def [symmetric]
    by (simp add: within_limit_append)
qed

text \<open>Words and bullets stay within the limit when they stay on their start line.\<close>

lemma words_within_limit:
  assumes "margin + 20 \<le> H - bottomMargin"
    and "list_all (\<lambda>item. pc_type item = Header \<or> on_start_line m margin W item) items"
  shows "within_limit (H - bottomMargin)
           (filter (\<lambda>d. \<not> header_block d) (fst (addFormattedContent m items margin W y H)))"
  using assms(2)
proof (induction items arbitrary: y)
  case Nil
  then show ?case by (simp add: within_limit_def)
next
  case (Cons item items)
  from Cons.prems have
    r: "list_all (\<lambda>item. pc_type item = Header \<or> on_start_line m margin W item) items"
    and i: "pc_type item = Header \<or> on_start_line m margin W item"
    by simp_all
  define y0 where "y0 = (if y > H - bottomMargin then margin + 20 else y)"
  have y0: "y0 \<le> H - bottomMargin" using assms(1) by (simp add: y0_def)
  have a: "within_limit (H - bottomMargin)
             (filter (\<lambda>d. \<not> header_block d)
                (map (shift_draw y0) (fst (layout_item m margin W 0 item))))"
  proof (cases "pc_type item = Header")
    case True
    from header_item_ops [OF this, of m margin W] show ?thesis
      by (auto simp: within_limit_def)
  next
    case False
    with i have "within_limit 0 (fst (layout_item m margin W 0 item))"
      by (simp add: on_start_line_def)
    then have "within_limit (H - bottomMargin)
                 (map (shift_draw y0) (fst (layout_item m margin W 0 item)))"
      using y0 by (rule within_limit_shift)
    then show ?thesis by (rule within_limit_filter)
  qed
  have b: "within_limit (H - bottomMargin)
             (filter (\<lambda>d. \<not> header_block d)
                (fst (addFormattedContent m items margin W (y0 + item_height m margin W item) H)))"
    by (rule Cons.IH [OF r])
  from a b show ?case
    unfolding addFormattedContent_Cons Let_def y0_def [symmetric]
    by (simp add: within_limit_append within_limit_def)
qed

lemma headers_within_slack:
  assumes "margin + 20 \<le> H - bottomMargin"
    and "list_all (\<lambda>item. pc_type item = Header \<or> on_start_line m margin W item) items"
  shows "within_limit (H - bottomMargin + 15) (fst (addFormattedContent m items margin W y H))"
proof (rule slack_within_limit [OF assms(1)])
  have "within_limit 15 (fst (layout_item m margin W 0 item))"
    if "pc_type item = Header \<or> on_start_line m margin W item" for item
    using that
  proof
    assume "pc_type item = Header"
    then show ?thesis by (rule header_within_15)
  next
    assume "on_start_line m margin W item"
    then have "within_limit 0 (fst (layout_item m margin W 0 item))"
      by (simp add: on_start_line_def)
    then show ?thesis by (rule within_limit_mono) simp
  qed
  with assms(2) show "list_all (\<lambda>item. within_limit 15 (fst (layout_item m margin W 0 item))) items"
    by (auto simp: list_all_iff)
qed

text \<open>Lower bounds: a stream that is long enough is broken.\<close>

lemma total_height_Cons:
  "total_height m margin W (item # items)
     = item_height m margin W item + total_height m margin W items"
  by (simp add: total_height_def)

lemma no_break_fits:
  "page_breaks (fst (addFormattedContent m items margin W y H)) = 0 \<Longrightarrow> items \<noteq> [] \<Longrightarrow>
     y + total_height m margin W items - item_height m margin W (last items) \<le> H - bottomMargin"
proof (induction items arbitrary: y)
  case Nil
  then show ?case by simp
next
  case (Cons item items)
  from Cons.prems(1) have y: "y \<le> H - bottomMargin"
    unfolding page_breaks_Cons by (simp split: if_splits)
  show ?case
  proof (cases "items = []")
    case True
    with y show ?thesis by (simp add: total_height_def)
  next
    case False
    from Cons.prems(1) y
    have "page_breaks (fst (addFormattedContent m items margin W
             (y + item_height m margin W item) H)) = 0"
      unfolding page_breaks_Cons by simp
    from Cons.IH [OF this False] False show ?thesis
      by (simp add: total_height_Cons algebra_simps)
  qed
qed

lemma page_breaks_lower_aux:
  assumes top: "margin + 20 \<le> H - bottomMargin"
    and hm: "\<forall>i \<in> set (item # rest). item_height m margin W i \<le> hmax"
  shows "(if y > H - bottomMargin then margin + 20 else y)
           + total_height m margin W (item # rest)
           - item_height m margin W (last (item # rest))
         \<le> H - bottomMargin
           + of_nat (page_breaks (fst (addFormattedContent m rest margin W
                 ((if y > H - bottomMargin then margin + 20 else y)
                    + item_height m margin W item) H)))
             * (H - bottomMargin - (margin + 20) + hmax)"
  using hm
proof (induction rest arbitrary: item y)
  case Nil
  with top show ?case by (simp add: total_height_def page_breaks_def)
next
  case (Cons item2 rest)
  define L where "L = H - bottomMargin"
  define r where "r = margin + 20"
  define h where "h = item_height m margin W item"
  define y0 where "y0 = (if y > L then r else y)"
  define y1 where "y1 = y0 + h"
  define y10 where "y10 = (if y1 > L then r else y1)"
  define T where "T = total_height m margin W (item2 # rest)"
  define hl where "hl = item_height m margin W (last (item2 # rest))"
  define b where "b = page_breaks (fst (addFormattedContent m rest margin W
                         (y10 + item_height m margin W item2) H))"
  have y0: "y0 \<le> L" using top by (simp add: y0_def L_def r_def)
  have h: "h \<le> hmax" using Cons.prems by (simp add: h_def)
  have "\<forall>i \<in> set (item2 # rest). item_height m margin W i \<le> hmax"
    using Cons.prems by simp
  from Cons.IH [OF this, of y1]
  have ih: "y10 + T - hl \<le> L + of_nat b * (L - r + hmax)"
    unfolding y10_def T_def hl_def b_def L_def r_def by simp
  have br: "page_breaks (fst (addFormattedContent m (item2 # rest) margin W y1 H))
              = (if y1 > L then Suc b else b)"
    unfolding page_breaks_Cons b_def y10_def L_def r_def by simp
  have "y0 + (h + T) - hl \<le> L + of_nat (if y1 > L then Suc b else b) * (L - r + hmax)"
  proof (cases "y1 > L")
    case True
    then have "y10 = r" by (simp add: y10_def)
    with ih have "r + T - hl \<le> L + of_nat b * (L - r + hmax)" by simp
    moreover have "y0 + h - r \<le> L - r + hmax" using y0 h by simp
    ultimately have "y0 + (h + T) - hl \<le> L + of_nat b * (L - r + hmax) + (L - r + hmax)"
      by simp
    with True show ?thesis by (simp add: algebra_simps)
  next
    case False
    then have "y10 = y0 + h" by (simp add: y10_def y1_def)
    with ih False show ?thesis by (simp add: algebra_simps)
  qed
  then show ?case
    unfolding total_height_Cons [of m margin W item] br [symmetric]
    by (cases "y > H - bottomMargin")
       (simp_all add: y0_def y1_def L_def r_def h_def T_def hl_def
          del: addFormattedContent.simps)
qed

lemma page_breaks_lower:
  assumes "margin + 20 \<le> H - bottomMargin"
    and "items \<noteq> []"
    and "y \<le> H - bottomMargin"
    and "\<forall>i \<in> set items. item_height m margin W i \<le> hmax"
  shows "y + total_height m margin W items - item_height m margin W (last items)
         \<le> H - bottomMargin
           + of_nat (page_breaks (fst (addFormattedContent m items margin W y H)))
             * (H - bottomMargin - (margin + 20) + hmax)"
proof -
  from assms(2) obtain item rest where i: "items = item # rest" by (cases items) auto
  have b: "page_breaks (fst (addFormattedContent m (item # rest) margin W y H))
             = page_breaks (fst (addFormattedContent m rest margin W
                  (y + item_height m margin W item) H))"
    using assms(3) unfolding page_breaks_Cons by simp
  from page_breaks_lower_aux [OF assms(1), of item rest m W hmax y] assms(3,4)
  show ?thesis unfolding i b by simp
qed


text \<open>The example streams, evaluated.\<close>

lemma example_heights:
  "item_height example_metrics 50 a4_contentWidth example_header = 45"
  "item_height example_metrics 50 a4_contentWidth example_paragraph = 12"
  by code_simp+

lemma example_tokens_total:
  "total_height example_metrics 50 a4_contentWidth example_tokens = 879"
  by code_simp

lemma example_tokens_breaks:
  "page_breaks (fst (addFormattedContent example_metrics example_tokens 50 a4_contentWidth
                       140 a4_height)) = 1"
  by code_simp

lemma example_tokens_beyond:
  "\<not> within_limit (a4_height - bottomMargin)
        (fst (addFormattedContent example_metrics example_tokens 50 a4_contentWidth
                140 a4_height))"
  by code_simp

lemma example_short_breaks:
  "page_breaks (fst (addFormattedContent example_metrics example_short 50 a4_contentWidth
                       140 a4_height)) = 0"
  by code_simp

lemma example_paragraph_on_start_line:
  "on_start_line example_metrics 50 a4_contentWidth example_paragraph"
  by code_simp

text \<open>
  The claim as stated fails on the first example stream: its height is 879 points, more
  than the page height 841.89, so two page breaks are claimed; one is emitted. The
  sixteenth token, a header, starts at cursor 749, within the limit 761.89, and its
  text is drawn at 764.
\<close>

theorem pagination_counterexample:
  "a4_height < total_height example_metrics 50 a4_contentWidth example_tokens
   \<and> page_breaks (fst (addFormattedContent example_metrics example_tokens 50 a4_contentWidth
                         140 a4_height)) = 1
   \<and> \<lceil>total_height example_metrics 50 a4_contentWidth example_tokens / a4_height\<rceil> = 2
   \<and> \<not> within_limit (a4_height - bottomMargin)
          (fst (addFormattedContent example_metrics example_tokens 50 a4_contentWidth
                  140 a4_height))"
proof -
  have a: "a4_height < total_height example_metrics 50 a4_contentWidth example_tokens"
    by (simp add: example_tokens_total a4_height_def)
  have c: "\<lceil>total_height example_metrics 50 a4_contentWidth example_tokens / a4_height\<rceil> = 2"
    by (simp add: example_tokens_total a4_height_def ceiling_eq_iff)
  show ?thesis
    by (intro conjI a c example_tokens_breaks example_tokens_beyond)
qed

text \<open>
  C3 (amended). With \<open>limit = pageHeight - bottomMargin\<close> and \<open>top = margin + 20\<close>:

  \<^item> The stream is laid out token by token: a page break exactly when the cursor at the
    start of the token is beyond the limit, then the operations of the token at the
    cursor (\<open>top\<close> after a break), then the rest from the cursor advanced by the height
    of the token. So the page breaks are one for each token that starts beyond the
    limit, none for the empty stream and at most one per token.

  \<^item> The number of breaks is bounded by the total height from both sides. With at least
    one break, the breaks but one times \<open>limit - top\<close> stay below the start cursor plus
    the total height minus the limit. With no break, the start cursor plus the height of
    all tokens but the last is within the limit. When the stream starts within the limit
    and no token is higher than \<open>hmax\<close>, the start cursor plus the height of all tokens
    but the last is at most the limit plus the breaks times \<open>limit - top + hmax\<close>.

  \<^item> When \<open>top\<close> is within the limit and every token other than a header keeps its
    text on its start line, every word and bullet is placed within the limit and the
    first line of every header at most 15 points beyond it. In general, when each token
    laid out from cursor 0 places no text below \<open>e\<close>, no text is placed more than
    \<open>e\<close> beyond the limit.
\<close>

theorem page_breaks_between_tokens:
  "let ops = fst (addFormattedContent m items margin contentWidth startY pageHeight);
       limit = pageHeight - bottomMargin;
       top = margin + 20;
       total = total_height m margin contentWidth items;
       last_height = item_height m margin contentWidth (last items)
   in (\<forall>item rest y.
         fst (addFormattedContent m (item # rest) margin contentWidth y pageHeight)
           = (if y > limit then [AddPage] else [])
             @ map (shift_draw (if y > limit then top else y))
                 (fst (layout_item m margin contentWidth 0 item))
             @ fst (addFormattedContent m rest margin contentWidth
                   ((if y > limit then top else y) + item_height m margin contentWidth item)
                   pageHeight))
    \<and> (\<forall>item rest y.
         page_breaks (fst (addFormattedContent m (item # rest) margin contentWidth y pageHeight))
           = (if y > limit then 1 else 0)
             + page_breaks (fst (addFormattedContent m rest margin contentWidth
                   ((if y > limit then top else y) + item_height m margin contentWidth item)
                   pageHeight)))
    \<and> page_breaks (fst (addFormattedContent m [] margin contentWidth startY pageHeight)) = 0
    \<and> page_breaks ops \<le> length items
    \<and> (0 < page_breaks ops \<longrightarrow>
         (of_nat (page_breaks ops) - 1) * (limit - top) < startY + total - limit)
    \<and> (page_breaks ops = 0 \<and> items \<noteq> [] \<longrightarrow> startY + total - last_height \<le> limit)
    \<and> (\<forall>hmax. items \<noteq> [] \<and> top \<le> limit \<and> startY \<le> limit
            \<and> (\<forall>item \<in> set items. item_height m margin contentWidth item \<le> hmax) \<longrightarrow>
          startY + total - last_height
            \<le> limit + of_nat (page_breaks ops) * (limit - top + hmax))
    \<and> (top \<le> limit
         \<and> list_all (\<lambda>item. pc_type item = Header \<or> on_start_line m margin contentWidth item)
              items \<longrightarrow>
          within_limit (limit + 15) ops
          \<and> within_limit limit (filter (\<lambda>d. \<not> header_block d) ops))
    \<and> (\<forall>e. top \<le> limit
            \<and> list_all (\<lambda>item. within_limit e (fst (layout_item m margin contentWidth 0 item)))
                 items \<longrightarrow>
          within_limit (limit + e) ops)"
proof -
  have 1: "page_breaks (fst (addFormattedContent m (item # rest) margin contentWidth y pageHeight))
           = (if y > pageHeight - bottomMargin then 1 else 0)
             + page_breaks (fst (addFormattedContent m rest margin contentWidth
                   ((if y > pageHeight - bottomMargin then margin + 20 else y)
                      + item_height m margin contentWidth item)
                   pageHeight))" for item rest y
    unfolding page_breaks_Cons by simp
  have 0: "fst (addFormattedContent m (item # rest) margin contentWidth y pageHeight)
           = (if y > pageHeight - bottomMargin then [AddPage] else [])
             @ map (shift_draw (if y > pageHeight - bottomMargin then margin + 20 else y))
                 (fst (layout_item m margin contentWidth 0 item))
             @ fst (addFormattedContent m rest margin contentWidth
                   ((if y > pageHeight - bottomMargin then margin + 20 else y)
                      + item_height m margin contentWidth item)
                   pageHeight)" for item rest y
    unfolding addFormattedContent_Cons Let_def by simp
  have 2: "page_breaks (fst (addFormattedContent m [] margin contentWidth startY pageHeight)) = 0"
    by (simp add: page_breaks_def)
  note 3 = page_breaks_le_tokens [of m items margin contentWidth startY pageHeight]
  note 4 = page_breaks_bound [of m items margin contentWidth startY pageHeight]
  note 5 = no_break_fits [of m items margin contentWidth startY pageHeight]
  note 6 = page_breaks_lower [of margin pageHeight items startY m contentWidth]
  note 7 = headers_within_slack [of margin pageHeight m contentWidth items startY]
  note 8 = words_within_limit [of margin pageHeight m contentWidth items startY]
  note 9 = slack_within_limit [of margin pageHeight _ m contentWidth items startY]
  show ?thesis
    unfolding Let_def
    using 0 1 2 3 4 5 6 7 8 9 by blast
qed

text \<open>
  The first example stream has one break, its tokens are headers and one-line
  paragraphs, none higher than 45 points; the second has no break.
\<close>

theorem page_breaks_between_tokens_witness:
  "0 < page_breaks (fst (addFormattedContent example_metrics example_tokens 50 a4_contentWidth
                           140 a4_height))
   \<and> page_breaks (fst (addFormattedContent example_metrics example_short 50 a4_contentWidth
                         140 a4_height)) = 0
   \<and> example_tokens \<noteq> [] \<and> example_short \<noteq> []
   \<and> 50 + 20 \<le> a4_height - bottomMargin \<and> 140 \<le> a4_height - bottomMargin
   \<and> list_all (\<lambda>item. item_height example_metrics 50 a4_contentWidth item \<le> 45) example_tokens
   \<and> list_all (\<lambda>item. pc_type item = Header
                        \<or> on_start_line example_metrics 50 a4_contentWidth item) example_tokens
   \<and> list_all (\<lambda>item. within_limit 15
                          (fst (layout_item example_metrics 50 a4_contentWidth 0 item)))
        example_tokens
   \<and> (of_nat (page_breaks (fst (addFormattedContent example_metrics example_tokens 50
                                  a4_contentWidth 140 a4_height))) - 1)
        * (a4_height - bottomMargin - (50 + 20))
       < 140 + total_height example_metrics 50 a4_contentWidth example_tokens
           - (a4_height - bottomMargin)
   \<and> 140 + total_height example_metrics 50 a4_contentWidth example_tokens
         - item_height example_metrics 50 a4_contentWidth (last example_tokens)
       \<le> a4_height - bottomMargin
           + of_nat (page_breaks (fst (addFormattedContent example_metrics example_tokens 50
                                         a4_contentWidth 140 a4_height)))
             * (a4_height - bottomMargin - (50 + 20) + 45)
   \<and> 140 + total_height example_metrics 50 a4_contentWidth example_short
         - item_height example_metrics 50 a4_contentWidth (last example_short)
       \<le> a4_height - bottomMargin
   \<and> within_limit (a4_height - bottomMargin + 15)
        (fst (addFormattedContent example_metrics example_tokens 50 a4_contentWidth
                140 a4_height))
   \<and> within_limit (a4_height - bottomMargin)
        (filter (\<lambda>d. \<not> header_block d)
           (fst (addFormattedContent example_metrics example_tokens 50 a4_contentWidth
                   140 a4_height)))"
proof -
  let ?P = "\<lambda>item. pc_type item = Header
                    \<or> on_start_line example_metrics 50 a4_contentWidth item"
  have b: "0 < page_breaks (fst (addFormattedContent example_metrics example_tokens 50
                                   a4_contentWidth 140 a4_height))"
    by (simp add: example_tokens_breaks)
  note z = example_short_breaks
  have n: "example_tokens \<noteq> []" "example_short \<noteq> []"
    by (simp_all add: example_tokens_def example_short_def)
  have t: "(50 :: rat) + 20 \<le> a4_height - bottomMargin" "140 \<le> a4_height - bottomMargin"
    by (simp_all add: a4_height_def bottomMargin_def)
  have s: "set example_tokens = {example_header, example_paragraph}"
    by (auto simp: example_tokens_def)
  have h: "list_all (\<lambda>item. item_height example_metrics 50 a4_contentWidth item \<le> 45)
             example_tokens"
    by (simp add: list_all_iff s example_heights)
  have hd: "pc_type example_header = Header" by (simp add: example_header_def)
  have p: "list_all ?P example_tokens"
    by (simp add: list_all_iff s hd example_paragraph_on_start_line)
  have e: "list_all (\<lambda>item. within_limit 15
                          (fst (layout_item example_metrics 50 a4_contentWidth 0 item)))
             example_tokens"
  proof -
    have "within_limit 15 (fst (layout_item example_metrics 50 a4_contentWidth 0 example_header))"
      using hd by (rule header_within_15)
    moreover have "within_limit 15
                     (fst (layout_item example_metrics 50 a4_contentWidth 0 example_paragraph))"
      using example_paragraph_on_start_line
      by (auto simp: on_start_line_def intro: within_limit_mono)
    ultimately show ?thesis by (simp add: list_all_iff s)
  qed
  have h': "\<forall>item \<in> set example_tokens.
              item_height example_metrics 50 a4_contentWidth item \<le> 45"
    using h by (simp add: list_all_iff)
  note T = page_breaks_between_tokens
             [of example_metrics example_tokens 50 a4_contentWidth 140 a4_height,
              unfolded Let_def]
  note S = page_breaks_between_tokens
             [of example_metrics example_short 50 a4_contentWidth 140 a4_height,
              unfolded Let_def]
  have c1: "(of_nat (page_breaks (fst (addFormattedContent example_metrics example_tokens 50
                                  a4_contentWidth 140 a4_height))) - 1)
        * (a4_height - bottomMargin - (50 + 20))
       < 140 + total_height example_metrics 50 a4_contentWidth example_tokens
           - (a4_height - bottomMargin)"
    using T b by blast
  have c2: "140 + total_height example_metrics 50 a4_contentWidth example_tokens
         - item_height example_metrics 50 a4_contentWidth (last example_tokens)
       \<le> a4_height - bottomMargin
           + of_nat (page_breaks (fst (addFormattedContent example_metrics example_tokens 50
                                         a4_contentWidth 140 a4_height)))
             * (a4_height - bottomMargin - (50 + 20) + 45)"
    using T n(1) t h' by blast
  have c3: "140 + total_height example_metrics 50 a4_contentWidth example_short
         - item_height example_metrics 50 a4_contentWidth (last example_short)
       \<le> a4_height - bottomMargin"
    using S z n(2) by blast
  have c4: "within_limit (a4_height - bottomMargin + 15)
        (fst (addFormattedContent example_metrics example_tokens 50 a4_contentWidth
                140 a4_height))
   \<and> within_limit (a4_height - bottomMargin)
        (filter (\<lambda>d. \<not> header_block d)
           (fst (addFormattedContent example_metrics example_tokens 50 a4_contentWidth
                   140 a4_height)))"
    using T t(1) p by blast
  show ?thesis
    by (intro conjI b z n t h p e c1 c2 c3 conjunct1 [OF c4] conjunct2 [OF c4])
qed

section \<open>Properties of the document generation fallback\<close>

lemma get_prop_total: "\<not> nullish v \<Longrightarrow> \<exists>x. get_prop v k = Inr x"
  by (cases v) (simp_all add: nullish_def)

lemma opt_prop_total: "\<exists>x. opt_prop v k = Inr x"
  using get_prop_total [of v k] by (auto simp: opt_prop_def)

lemma truthy_not_nullish: "truthy v \<Longrightarrow> \<not> nullish v"
  by (cases v) (simp_all add: nullish_def)

lemma or_else_obj_not_nullish: "\<not> nullish (or_else v (JObj kvs))"
  using truthy_not_nullish [of v] by (simp add: or_else_def nullish_def)

lemma falsy_coercible: "\<not> truthy v \<Longrightarrow> coercible v"
  by (cases v) simp_all

lemma falsy_get_prop: "\<not> truthy v \<Longrightarrow> opt_prop v k = Inr JUndefined"
  by (cases v) (simp_all add: opt_prop_def nullish_def)

lemma opt_prop_truthy: "truthy v \<Longrightarrow> opt_prop v k = get_prop v k"
  by (simp add: opt_prop_def truthy_not_nullish)

lemma to_strings_coercible:
  "to_strings vs = Inr ss \<Longrightarrow> v \<in> set vs \<Longrightarrow> coercible v"
proof (induction vs arbitrary: ss)
  case Nil
  then show ?case by simp
next
  case (Cons a vs)
  then show ?case
    by (auto simp: and_then_def to_string_def split: sum.splits if_splits)
qed


text \<open>
  When the full name could be built, the first and last name that the task template
  prints convert to strings.
\<close>

lemma fullName_parts_coercible:
  assumes n: "getDeceasedFullName data = Inr fullName"
    and a: "get_prop data ''arrangement'' = Inr arr"
    and b: "opt_prop arr ''basic_information'' = Inr bi"
    and d: "get_prop (or_else bi (JObj [])) ''deceased_name'' = Inr dn"
    and f: "opt_prop dn k = Inr v"
    and k: "k = ''first'' \<or> k = ''last''"
  shows "coercible v"
proof (cases "truthy bi")
  case False
  with d have "dn = JUndefined" by (simp add: or_else_def)
  with f have "v = JUndefined" by (simp add: opt_prop_def nullish_def)
  then show ?thesis by simp
next
  case True
  with d have d': "opt_prop bi ''deceased_name'' = Inr dn"
    by (simp add: or_else_def opt_prop_truthy)
  show ?thesis
  proof (cases "truthy dn")
    case False
    with f have "v = JUndefined" by (simp add: falsy_get_prop)
    then show ?thesis by simp
  next
    case True
    then have nn: "\<not> nullish dn" by (rule truthy_not_nullish)
    obtain v1 where 1: "get_prop dn ''first'' = Inr v1" using get_prop_total [OF nn] by blast
    obtain v2 where 2: "get_prop dn ''middle'' = Inr v2" using get_prop_total [OF nn] by blast
    obtain v3 where 3: "get_prop dn ''last'' = Inr v3" using get_prop_total [OF nn] by blast
    obtain v4 where 4: "get_prop dn ''suffix'' = Inr v4" using get_prop_total [OF nn] by blast
    from n a b d' True 1 2 3 4
    obtain parts where p: "to_strings (filter truthy [v1, v2, v3, v4]) = Inr parts"
      by (auto simp: getDeceasedFullName_def and_then_def split: sum.splits)
    from f k 1 3 True have v: "v = v1 \<or> v = v3"
      by (auto simp: opt_prop_truthy)
    show ?thesis
    proof (cases "truthy v")
      case False
      then show ?thesis by (rule falsy_coercible)
    next
      case True
      with v have "v \<in> set (filter truthy [v1, v2, v3, v4])" by auto
      with p show ?thesis by (rule to_strings_coercible)
    qed
  qed
qed

lemma to_string_coercible: "coercible v \<Longrightarrow> to_string v = Inr (render v)"
  by (simp add: to_string_def)

lemma coercible_or_else: "coercible v \<Longrightarrow> coercible (or_else v (JStr s))"
  by (simp add: or_else_def)

text \<open>What a successful prompt construction tells about the data.\<close>

lemma getPromptForType_data:
  assumes "getPromptForType today ty data tc styles = Inr p"
  shows "\<exists>arr bi ag fullName.
           get_prop data ''arrangement'' = Inr arr
         \<and> opt_prop arr ''basic_information'' = Inr bi
         \<and> opt_prop arr ''arrangements'' = Inr ag
         \<and> getDeceasedFullName data = Inr fullName"
  using assms
  by (auto simp: getPromptForType_def and_then_def split: sum.splits if_splits)

lemma printableD:
  assumes "printable data k"
    and "get_prop data ''arrangement'' = Inr arr"
    and "opt_prop arr ''arrangements'' = Inr ag"
  shows "\<exists>v. get_prop (or_else ag (JObj [])) k = Inr v \<and> coercible v"
  using assms
  by (auto simp: printable_def arrangements_field_def and_then_def split: sum.splits)

lemma join_Cons2: "join sep (x # y # ys) = x @ sep @ join sep (y # ys)"
  by simp

lemma getFallbackTasks_template:
  assumes p: "getPromptForType today ty data tc styles = Inr pr"
    and s: "printable data ''service_date''"
  shows "\<exists>rest. getFallbackTasks today data
                  = Inr (''# Funeral Director Task Checklist'' @ [newline] @ rest)"
proof -
  from getPromptForType_data [OF p] obtain arr bi ag fullName where
    a: "get_prop data ''arrangement'' = Inr arr"
    and b: "opt_prop arr ''basic_information'' = Inr bi"
    and g: "opt_prop arr ''arrangements'' = Inr ag"
    and n: "getDeceasedFullName data = Inr fullName"
    by blast
  obtain dn where d: "get_prop (or_else bi (JObj [])) ''deceased_name'' = Inr dn"
    using get_prop_total [OF or_else_obj_not_nullish] by blast
  obtain v1 where 1: "opt_prop dn ''first'' = Inr v1" using opt_prop_total by blast
  obtain v3 where 3: "opt_prop dn ''last'' = Inr v3" using opt_prop_total by blast
  have c1: "to_string v1 = Inr (render v1)"
    by (rule to_string_coercible) (rule fullName_parts_coercible [OF n a b d 1], simp)
  have c3: "to_string v3 = Inr (render v3)"
    by (rule to_string_coercible) (rule fullName_parts_coercible [OF n a b d 3], simp)
  from printableD [OF s a g] obtain sd where
    sd: "get_prop (or_else ag (JObj [])) ''service_date'' = Inr sd" and "coercible sd"
    by blast
  then have cs: "to_string (or_else sd (JStr ''TBD'')) = Inr (render (or_else sd (JStr ''TBD'')))"
    by (intro to_string_coercible coercible_or_else)
  show ?thesis
    unfolding getFallbackTasks_def
    by (simp only: a b g n d 1 3 c1 c3 sd cs and_then_def sum.case Let_def join_Cons2)
       blast
qed


lemma getFallbackArrangerTasks_template:
  assumes p: "getPromptForType today ty data tc styles = Inr pr"
    and s1: "printable data ''service_date''"
    and s2: "printable data ''service_time''"
    and s3: "printable data ''funeral_service_place''"
  shows "\<exists>rest. getFallbackArrangerTasks today data
                  = Inr (''# Family Arranger To-Do List'' @ [newline] @ rest)"
proof -
  from getPromptForType_data [OF p] obtain arr bi ag fullName where
    a: "get_prop data ''arrangement'' = Inr arr"
    and b: "opt_prop arr ''basic_information'' = Inr bi"
    and g: "opt_prop arr ''arrangements'' = Inr ag"
    and n: "getDeceasedFullName data = Inr fullName"
    by blast
  from printableD [OF s1 a g] obtain v1 where
    1: "get_prop (or_else ag (JObj [])) ''service_date'' = Inr v1" and "coercible v1"
    by blast
  then have c1: "to_string (or_else v1 (JStr ''TBD'')) = Inr (render (or_else v1 (JStr ''TBD'')))"
    by (intro to_string_coercible coercible_or_else)
  from printableD [OF s2 a g] obtain v2 where
    2: "get_prop (or_else ag (JObj [])) ''service_time'' = Inr v2" and "coercible v2"
    by blast
  then have c2: "to_string (or_else v2 (JStr ''TBD'')) = Inr (render (or_else v2 (JStr ''TBD'')))"
    by (intro to_string_coercible coercible_or_else)
  from printableD [OF s3 a g] obtain v3 where
    3: "get_prop (or_else ag (JObj [])) ''funeral_service_place'' = Inr v3" and "coercible v3"
    by blast
  then have c3: "to_string (or_else v3 (JStr ''TBD'')) = Inr (render (or_else v3 (JStr ''TBD'')))"
    by (intro to_string_coercible coercible_or_else)
  show ?thesis
    unfolding getFallbackArrangerTasks_def
    by (simp only: a b g n 1 2 3 c1 c2 c3 and_then_def sum.case Let_def join_Cons2)
       blast
qed

lemma generateDocument_llm_failed:
  assumes "getPromptForType today ty data tc styles = Inr pr"
    and "llm_result ty (llm calls pr) = Inl e"
  shows "generateDocument llm today calls ty data tc styles
           = (if ty = ''arranger_tasks'' then getFallbackArrangerTasks today data
              else if ty = ''tasks'' then getFallbackTasks today data
              else Inl (Error (''Failed to generate '' @ ty @ '' document: '' @ message e)),
              Suc calls)"
  using assms by (simp add: generateDocument_def Let_def)

text \<open>
  The claim as stated fails for some arrangement data: the prompt is built, the request
  to the language model times out, and the task template throws while printing the
  service date, so the call raises a TypeError.
\<close>

theorem tasks_fallback_counterexample:
  "getPromptForType ''January 5, 2025'' ''tasks'' example_bad_date ''Transcript'' None
     = Inr \<lparr>prompt_type = ''tasks'', prompt_data = example_bad_date,
            prompt_transcript = ''Transcript'', prompt_fullName = [],
            prompt_date = ''January 5, 2025'', prompt_styles = None\<rparr>
   \<and> llm_result ''tasks'' Timeout = Inl (Error ''AI service timeout - request took too long'')
   \<and> generateDocument (\<lambda>n p. Timeout) ''January 5, 2025'' 0 ''tasks'' example_bad_date
        ''Transcript'' None
     = (Inl (TypeError ''Cannot convert object to primitive value''), 1)"
  by code_simp

text \<open>
  C2 (amended). Let the prompt be built for the data, so that the request is sent, and
  let the request fail (time out, give no response or an empty text, or throw). For
  type \<open>tasks\<close>, if the service date converts to a string, the call returns the task
  template: a non-empty text that starts with the checklist heading. For type
  \<open>arranger_tasks\<close>, if service date, service time and place convert to strings, it
  returns the arranger template. In both cases exactly the one failed request has been
  sent. For every other type the call raises the wrapped error.
\<close>

theorem llm_failure_falls_back:
  assumes "getPromptForType today ty data tc styles = Inr pr"
    and "llm_result ty (llm calls pr) = Inl e"
  shows "(ty = ''tasks'' \<and> printable data ''service_date'' \<longrightarrow>
            (\<exists>s. generateDocument llm today calls ty data tc styles = (Inr s, Suc calls)
                \<and> Inr s = getFallbackTasks today data
                \<and> s \<noteq> [] \<and> prefix ''# Funeral Director Task Checklist'' s))
       \<and> (ty = ''arranger_tasks'' \<and> printable data ''service_date''
             \<and> printable data ''service_time'' \<and> printable data ''funeral_service_place'' \<longrightarrow>
            (\<exists>s. generateDocument llm today calls ty data tc styles = (Inr s, Suc calls)
                \<and> Inr s = getFallbackArrangerTasks today data
                \<and> s \<noteq> [] \<and> prefix ''# Family Arranger To-Do List'' s))
       \<and> (ty \<noteq> ''tasks'' \<and> ty \<noteq> ''arranger_tasks'' \<longrightarrow>
            generateDocument llm today calls ty data tc styles
              = (Inl (Error (''Failed to generate '' @ ty @ '' document: '' @ message e)),
                 Suc calls))"
proof -
  note g = generateDocument_llm_failed [where llm = llm and calls = calls, OF assms]
  have 1: "ty = ''tasks'' \<and> printable data ''service_date'' \<longrightarrow>
            (\<exists>s. generateDocument llm today calls ty data tc styles = (Inr s, Suc calls)
                \<and> Inr s = getFallbackTasks today data
                \<and> s \<noteq> [] \<and> prefix ''# Funeral Director Task Checklist'' s)"
  proof
    assume h: "ty = ''tasks'' \<and> printable data ''service_date''"
    then obtain rest where
      "getFallbackTasks today data
         = Inr (''# Funeral Director Task Checklist'' @ [newline] @ rest)"
      using getFallbackTasks_template [OF assms(1)] by blast
    with h show "\<exists>s. generateDocument llm today calls ty data tc styles = (Inr s, Suc calls)
                  \<and> Inr s = getFallbackTasks today data
                  \<and> s \<noteq> [] \<and> prefix ''# Funeral Director Task Checklist'' s"
      unfolding g by (simp add: prefix_def)
  qed
  have 2: "ty = ''arranger_tasks'' \<and> printable data ''service_date''
             \<and> printable data ''service_time'' \<and> printable data ''funeral_service_place'' \<longrightarrow>
            (\<exists>s. generateDocument llm today calls ty data tc styles = (Inr s, Suc calls)
                \<and> Inr s = getFallbackArrangerTasks today data
                \<and> s \<noteq> [] \<and> prefix ''# Family Arranger To-Do List'' s)"
  proof
    assume h: "ty = ''arranger_tasks'' \<and> printable data ''service_date''
               \<and> printable data ''service_time'' \<and> printable data ''funeral_service_place''"
    then obtain rest where
      "getFallbackArrangerTasks today data
         = Inr (''# Family Arranger To-Do List'' @ [newline] @ rest)"
      using getFallbackArrangerTasks_template [OF assms(1)] by blast
    with h show "\<exists>s. generateDocument llm today calls ty data tc styles = (Inr s, Suc calls)
                  \<and> Inr s = getFallbackArrangerTasks today data
                  \<and> s \<noteq> [] \<and> prefix ''# Family Arranger To-Do List'' s"
      unfolding g by (simp add: prefix_def)
  qed
  have 3: "ty \<noteq> ''tasks'' \<and> ty \<noteq> ''arranger_tasks'' \<longrightarrow>
            generateDocument llm today calls ty data tc styles
              = (Inl (Error (''Failed to generate '' @ ty @ '' document: '' @ message e)),
                 Suc calls)"
    unfolding g by simp
  from 1 2 3 show ?thesis by (intro conjI)
qed

lemma example_prompt:
  "ty = ''tasks'' \<or> ty = ''arranger_tasks'' \<or> ty = ''contract'' \<Longrightarrow>
   getPromptForType ''January 5, 2025'' ty example_data ''Transcript'' None
     = Inr \<lparr>prompt_type = ty, prompt_data = example_data,
            prompt_transcript = ''Transcript'', prompt_fullName = ''Ada Byron'',
            prompt_date = ''January 5, 2025'', prompt_styles = None\<rparr>"
  by (elim disjE; hypsubst; code_simp)

lemma example_data_printable:
  "printable example_data ''service_date''"
  "printable example_data ''service_time''"
  "printable example_data ''funeral_service_place''"
  by code_simp+

theorem llm_failure_falls_back_witness:
  "(\<exists>pr. getPromptForType ''January 5, 2025'' ''tasks'' example_data ''Transcript'' None = Inr pr)
   \<and> llm_result ''tasks'' Timeout = Inl (Error ''AI service timeout - request took too long'')
   \<and> llm_result ''arranger_tasks'' NoResponse
        = Inl (Error ''No response received from AI service'')
   \<and> llm_result ''contract'' (Content ''  '')
        = Inl (Error ''Empty content received for contract document'')
   \<and> printable example_data ''service_date''
   \<and> printable example_data ''service_time''
   \<and> printable example_data ''funeral_service_place''
   \<and> (\<exists>s. generateDocument (\<lambda>n p. Timeout) ''January 5, 2025'' 0 ''tasks'' example_data
               ''Transcript'' None = (Inr s, 1)
          \<and> s \<noteq> [] \<and> prefix ''# Funeral Director Task Checklist'' s)
   \<and> (\<exists>s. generateDocument (\<lambda>n p. NoResponse) ''January 5, 2025'' 0 ''arranger_tasks''
               example_data ''Transcript'' None = (Inr s, 1)
          \<and> s \<noteq> [] \<and> prefix ''# Family Arranger To-Do List'' s)
   \<and> generateDocument (\<lambda>n p. Content ''  '') ''January 5, 2025'' 0 ''contract'' example_data
        ''Transcript'' None
     = (Inl (Error ''Failed to generate contract document: Empty content received for contract document''),
        1)"
proof -
  note p = example_prompt
  have f1: "llm_result ''tasks'' Timeout
              = Inl (Error ''AI service timeout - request took too long'')"
    by (simp add: llm_result_def)
  have f2: "llm_result ''arranger_tasks'' NoResponse
              = Inl (Error ''No response received from AI service'')"
    by (simp add: llm_result_def)
  have f3: "llm_result ''contract'' (Content ''  '')
              = Inl (Error ''Empty content received for contract document'')"
    by (simp add: llm_result_def trim_def is_space_def)
  note d = example_data_printable
  have e: "\<exists>pr. getPromptForType ''January 5, 2025'' ''tasks'' example_data ''Transcript'' None
                 = Inr pr"
    by (simp add: p)
  have 1: "\<exists>s. generateDocument (\<lambda>n p. Timeout) ''January 5, 2025'' 0 ''tasks'' example_data
               ''Transcript'' None = (Inr s, 1)
          \<and> s \<noteq> [] \<and> prefix ''# Funeral Director Task Checklist'' s"
    using llm_failure_falls_back
            [where llm = "\<lambda>n p. Timeout" and calls = 0 and ty = "''tasks''", OF p]
          f1 d
    by simp blast
  have 2: "\<exists>s. generateDocument (\<lambda>n p. NoResponse) ''January 5, 2025'' 0 ''arranger_tasks''
               example_data ''Transcript'' None = (Inr s, 1)
          \<and> s \<noteq> [] \<and> prefix ''# Family Arranger To-Do List'' s"
    using llm_failure_falls_back
            [where llm = "\<lambda>n p. NoResponse" and calls = 0 and ty = "''arranger_tasks''", OF p]
          f2 d
    by simp blast
  have 3: "generateDocument (\<lambda>n p. Content ''  '') ''January 5, 2025'' 0 ''contract''
             example_data ''Transcript'' None
           = (Inl (Error ''Failed to generate contract document: Empty content received for contract document''),
              1)"
    using llm_failure_falls_back
            [where llm = "\<lambda>n p. Content ''  ''" and calls = 0 and ty = "''contract''", OF p]
          f3
    by simp
  show ?thesis
    by (intro conjI e f1 f2 f3 d 1 2 3)
qed

end
